theory Spec2Isabelle
  imports Main
begin

section \<open>JavaScript strings and the built-in operations the analyzer calls\<close>

text \<open>
  A JavaScript string is a sequence of UTF-16 code units.  The analyzer only ever
  compares code units, it never computes with them, so a code unit is modelled by its
  number, an integer, and a string by a list of integers; every JavaScript string is
  such a list.
  The literals of the program are ASCII and are written with \<open>lit\<close>.
\<close>

type_synonym jschar = int
type_synonym jsstring = "jschar list"

definition lit :: "string \<Rightarrow> jsstring" where
  "lit s = map of_char s"

abbreviation NL :: jschar where "NL \<equiv> 0x0A"
abbreviation CR :: jschar where "CR \<equiv> 0x0D"
abbreviation TAB :: jschar where "TAB \<equiv> 0x09"
abbreviation SP :: jschar where "SP \<equiv> 0x20"

text \<open>
  The code units that \<open>String.prototype.trim\<close> strips and that \<open>\s\<close> matches in a
  regular expression: ECMAScript's WhiteSpace and LineTerminator productions.
\<close>

definition isWhiteSpace :: "jschar \<Rightarrow> bool" where
  "isWhiteSpace c = (c \<in> set [0x09, 0x0A, 0x0B, 0x0C, 0x0D, 0x20, 0xA0, 0x1680,
      0x2000, 0x2001, 0x2002, 0x2003, 0x2004, 0x2005, 0x2006, 0x2007, 0x2008, 0x2009, 0x200A,
      0x2028, 0x2029, 0x202F, 0x205F, 0x3000, 0xFEFF])"

text \<open>\<open>\w\<close> of a regular expression: \<open>[A-Za-z0-9_]\<close>.\<close>

definition isWordChar :: "jschar \<Rightarrow> bool" where
  "isWordChar c = ((0x41 \<le> c \<and> c \<le> 0x5A) \<or> (0x61 \<le> c \<and> c \<le> 0x7A)
      \<or> (0x30 \<le> c \<and> c \<le> 0x39) \<or> c = 0x5F)"

text \<open>\<open>[a-fA-F0-9]\<close>.\<close>

definition isHexDigit :: "jschar \<Rightarrow> bool" where
  "isHexDigit c = ((0x61 \<le> c \<and> c \<le> 0x66) \<or> (0x41 \<le> c \<and> c \<le> 0x46)
      \<or> (0x30 \<le> c \<and> c \<le> 0x39))"

text \<open>\<open>s.startsWith(p)\<close>\<close>

fun startsWith :: "'a list \<Rightarrow> 'a list \<Rightarrow> bool" where
  "startsWith s [] = True"
| "startsWith [] (p # ps) = False"
| "startsWith (c # cs) (p # ps) = (c = p \<and> startsWith cs ps)"

text \<open>\<open>s.includes(p)\<close>: \<open>p\<close> occurs at some position of \<open>s\<close>.\<close>

fun js_includes :: "'a list \<Rightarrow> 'a list \<Rightarrow> bool" where
  "js_includes [] p = startsWith [] p"
| "js_includes (c # cs) p = (startsWith (c # cs) p \<or> js_includes cs p)"

text \<open>\<open>s.trim()\<close>\<close>

definition trim :: "jsstring \<Rightarrow> jsstring" where
  "trim s = rev (dropWhile isWhiteSpace (rev (dropWhile isWhiteSpace s)))"

text \<open>\<open>s.split("\n")\<close>: never empty, the empty string gives one empty line.\<close>

fun split_nl :: "jsstring \<Rightarrow> jsstring list" where
  "split_nl [] = [ [] ]"
| "split_nl (c # cs) =
     (if c = NL then [] # split_nl cs
      else (case split_nl cs of [] \<Rightarrow> [ [c] ] | l # ls \<Rightarrow> (c # l) # ls))"

text \<open>\<open>s.replace(p, r)\<close> with a string pattern: the first occurrence only.\<close>

fun replaceFirst :: "'a list \<Rightarrow> 'a list \<Rightarrow> 'a list \<Rightarrow> 'a list" where
  "replaceFirst [] p r = (if p = [] then r else [])"
| "replaceFirst (c # cs) p r =
     (if startsWith (c # cs) p then r @ drop (length p) (c # cs)
      else c # replaceFirst cs p r)"

text \<open>
  \<open>xs.findIndex((x, index) => P)\<close>: the index of the first element that satisfies the
  callback, \<open>-1\<close> when there is none.
\<close>

fun findIndexFrom :: "('a \<Rightarrow> int \<Rightarrow> bool) \<Rightarrow> int \<Rightarrow> 'a list \<Rightarrow> int" where
  "findIndexFrom P i [] = -1"
| "findIndexFrom P i (x # xs) = (if P x i then i else findIndexFrom P (i + 1) xs)"

definition findIndex :: "('a \<Rightarrow> int \<Rightarrow> bool) \<Rightarrow> 'a list \<Rightarrow> int" where
  "findIndex P xs = findIndexFrom P 0 xs"

text \<open>
  \<open>xs.slice(start, end)\<close>: a negative bound counts from the end of the array, both
  bounds are clamped to the array.
\<close>

definition js_slice :: "'a list \<Rightarrow> int \<Rightarrow> int \<Rightarrow> 'a list" where
  "js_slice xs start stop =
     (let len = int (length xs);
          k = (if start < 0 then max (len + start) 0 else min start len);
          final = (if stop < 0 then max (len + stop) 0 else min stop len)
      in take (nat (final - k)) (drop (nat k) xs))"

text \<open>
  An unanchored regular-expression search: the anchored matcher \<open>m\<close> is tried at every
  position of the string, the end included.
\<close>

fun regexSearch :: "(jsstring \<Rightarrow> bool) \<Rightarrow> jsstring \<Rightarrow> bool" where
  "regexSearch m [] = m []"
| "regexSearch m (c # cs) = (m (c # cs) \<or> regexSearch m cs)"

section \<open>The preprocessor\<close>

text \<open>\<open>.replace(/\r\n/g, "\n")\<close>\<close>

fun replaceCRLF :: "jsstring \<Rightarrow> jsstring" where
  "replaceCRLF (c # d # cs) =
     (if c = CR \<and> d = NL then NL # replaceCRLF cs else c # replaceCRLF (d # cs))"
| "replaceCRLF cs = cs"

text \<open>\<open>.replace(/\r/g, "\n")\<close>\<close>

definition replaceCR :: "jsstring \<Rightarrow> jsstring" where
  "replaceCR s = map (\<lambda>c. if c = CR then NL else c) s"

text \<open>\<open>.replace(/\t/g, "    ")\<close>\<close>

definition replaceTAB :: "jsstring \<Rightarrow> jsstring" where
  "replaceTAB s = concat (map (\<lambda>c. if c = TAB then [SP, SP, SP, SP] else [c]) s)"

definition preprocessSolidityCode :: "jsstring \<Rightarrow> jsstring" where
  "preprocessSolidityCode code = trim (replaceTAB (replaceCR (replaceCRLF code)))"

section \<open>Findings\<close>

datatype severity = High | Medium | Low | Info | Error

text \<open>
  \<open>SmartCheckResult\<close>.  The text fields only ever hold literals of the program; line and
  column are JavaScript numbers that only ever hold integers here.
\<close>

record finding =
  severity :: severity
  message :: string
  line :: int
  column :: int
  rule :: string
  description :: string
  recommendation :: string

section \<open>The rule catalog (smartcheck-rules.ts)\<close>

text \<open>
  Each entry of \<open>rules\<close> is modelled by its \<open>check\<close> function, the only field the
  analyzer reads; \<open>None\<close> is \<open>null\<close>.
\<close>

definition check_reentrancy :: "jsstring \<Rightarrow> int \<Rightarrow> finding option" where
  "check_reentrancy code ln =
     (let hasExternalCall = (js_includes code (lit ''.call{'') \<or> js_includes code (lit ''.send('')
            \<or> js_includes code (lit ''.transfer(''));
          hasStateChange = (js_includes code (lit ''balances['') \<or> js_includes code (lit ''+='')
            \<or> js_includes code (lit ''-=''))
      in if hasExternalCall \<and> hasStateChange then
           Some \<lparr>severity = High, message = ''Potential reentrancy vulnerability detected'',
             line = ln, column = 1, rule = ''reentrancy'',
             description = ''The contract may be vulnerable to reentrancy attacks. State changes are made after external calls.'',
             recommendation = ''Consider using the Checks-Effects-Interactions pattern or a reentrancy guard.''\<rparr>
         else None)"

definition check_tx_origin :: "jsstring \<Rightarrow> int \<Rightarrow> finding option" where
  "check_tx_origin code ln =
     (if js_includes code (lit ''tx.origin'') then
        Some \<lparr>severity = High, message = ''Use of tx.origin detected'',
          line = ln, column = 1, rule = ''tx-origin'',
          description = ''Use of tx.origin for authentication is vulnerable to phishing attacks.'',
          recommendation = ''Use msg.sender instead of tx.origin for authentication.''\<rparr>
      else None)"

definition check_timestamp_dependence :: "jsstring \<Rightarrow> int \<Rightarrow> finding option" where
  "check_timestamp_dependence code ln =
     (if js_includes code (lit ''block.timestamp'') then
        Some \<lparr>severity = Medium, message = ''Timestamp dependence detected'',
          line = ln, column = 1, rule = ''timestamp-dependence'',
          description = ''Contract uses block.timestamp for critical operations.'',
          recommendation = ''Avoid using block.timestamp for critical operations as it can be manipulated by miners.''\<rparr>
      else None)"

text \<open>
  \<open>/0x[a-fA-F0-9]{40}/g\<close>, anchored at the start of the string.  The regular expression
  object is created afresh by every call of the check, so its \<open>lastIndex\<close> is 0 and
  \<open>test\<close> is a plain search.
\<close>

definition matchAddressAt :: "jsstring \<Rightarrow> bool" where
  "matchAddressAt s =
     (startsWith s (lit ''0x'') \<and> 40 \<le> length (drop 2 s) \<and> list_all isHexDigit (take 40 (drop 2 s)))"

definition check_hardcoded_address :: "jsstring \<Rightarrow> int \<Rightarrow> finding option" where
  "check_hardcoded_address code ln =
     (if regexSearch matchAddressAt code then
        Some \<lparr>severity = Medium, message = ''Hardcoded address detected'',
          line = ln, column = 1, rule = ''hardcoded-address'',
          description = ''Contract contains hardcoded Ethereum addresses.'',
          recommendation = ''Use configuration variables or constructor parameters instead of hardcoded addresses.''\<rparr>
      else None)"

definition check_unchecked_send :: "jsstring \<Rightarrow> int \<Rightarrow> finding option" where
  "check_unchecked_send code ln =
     (if js_includes code (lit ''.send('') \<or> js_includes code (lit ''.transfer('') then
        (let hasCheck = (js_includes code (lit ''require('') \<or> js_includes code (lit ''if ('')
               \<or> js_includes code (lit ''assert(''))
         in if \<not> hasCheck then
              Some \<lparr>severity = Medium, message = ''Unchecked send/transfer detected'',
                line = ln, column = 1, rule = ''unchecked-send'',
                description = ''Unchecked return value from send/transfer call.'',
                recommendation = ''Always check the return value of send/transfer calls.''\<rparr>
            else None)
      else None)"

definition check_delegatecall_usage :: "jsstring \<Rightarrow> int \<Rightarrow> finding option" where
  "check_delegatecall_usage code ln =
     (if js_includes code (lit ''.delegatecall('') then
        Some \<lparr>severity = High, message = ''Use of delegatecall detected'',
          line = ln, column = 1, rule = ''delegatecall-usage'',
          description = ''Use of delegatecall detected.'',
          recommendation = ''Be extremely careful with delegatecall as it can lead to unexpected behavior and vulnerabilities.''\<rparr>
      else None)"

definition check_selfdestruct_usage :: "jsstring \<Rightarrow> int \<Rightarrow> finding option" where
  "check_selfdestruct_usage code ln =
     (if js_includes code (lit ''selfdestruct('') then
        Some \<lparr>severity = High, message = ''Use of selfdestruct detected'',
          line = ln, column = 1, rule = ''selfdestruct-usage'',
          description = ''Use of selfdestruct detected.'',
          recommendation = ''Be careful with selfdestruct as it can lead to loss of funds.''\<rparr>
      else None)"

definition check_suicide_usage :: "jsstring \<Rightarrow> int \<Rightarrow> finding option" where
  "check_suicide_usage code ln =
     (if js_includes code (lit ''suicide('') then
        Some \<lparr>severity = High, message = ''Use of deprecated suicide function detected'',
          line = ln, column = 1, rule = ''suicide-usage'',
          description = ''Use of deprecated suicide function detected.'',
          recommendation = ''Use selfdestruct instead of suicide as it is deprecated.''\<rparr>
      else None)"

definition check_throw_usage :: "jsstring \<Rightarrow> int \<Rightarrow> finding option" where
  "check_throw_usage code ln =
     (if js_includes code (lit ''throw;'') then
        Some \<lparr>severity = Medium, message = ''Use of deprecated throw statement detected'',
          line = ln, column = 1, rule = ''throw-usage'',
          description = ''Use of deprecated throw statement detected.'',
          recommendation = ''Use require, assert, or revert instead of throw.''\<rparr>
      else None)"

definition check_gas_limit :: "jsstring \<Rightarrow> int \<Rightarrow> finding option" where
  "check_gas_limit code ln =
     (if js_includes code (lit ''for ('') \<or> js_includes code (lit ''while ('') then
        (let hasLimit = (js_includes code (lit ''require('') \<or> js_includes code (lit ''if ('')
               \<or> js_includes code (lit ''assert(''))
         in if \<not> hasLimit then
              Some \<lparr>severity = Medium, message = ''Potential gas limit issue detected'',
                line = ln, column = 1, rule = ''gas-limit'',
                description = ''Potential gas limit issue detected.'',
                recommendation = ''Consider using loops with a fixed number of iterations or implement pagination.''\<rparr>
            else None)
      else None)"

definition rules :: "(jsstring \<Rightarrow> int \<Rightarrow> finding option) list" where
  "rules = [check_reentrancy, check_tx_origin, check_timestamp_dependence,
     check_hardcoded_address, check_unchecked_send, check_delegatecall_usage,
     check_selfdestruct_usage, check_suicide_usage, check_throw_usage, check_gas_limit]"

section \<open>The regular expressions of the analyzer\<close>

text \<open>
  \<open>/\.(call|send|transfer)\s*[({]/\<close>, anchored at the start of the string.  The greedy
  \<open>\s*\<close> takes the whole run of white space; giving some of it back cannot help, since
  neither bracket is white space.
\<close>

definition afterKeyword :: "string \<Rightarrow> jsstring \<Rightarrow> bool" where
  "afterKeyword kw r =
     (startsWith r (lit kw) \<and>
      (case dropWhile isWhiteSpace (drop (length kw) r) of
         [] \<Rightarrow> False
       | d # _ \<Rightarrow> d = 0x28 \<or> d = 0x7B))"

definition matchExternalCallAt :: "jsstring \<Rightarrow> bool" where
  "matchExternalCallAt s =
     (case s of
        [] \<Rightarrow> False
      | c # r \<Rightarrow> c = 0x2E \<and> (afterKeyword ''call'' r \<or> afterKeyword ''send'' r \<or> afterKeyword ''transfer'' r))"

definition matchesExternalCall :: "jsstring \<Rightarrow> bool" where
  "matchesExternalCall ln = regexSearch matchExternalCallAt ln"

text \<open>
  \<open>/([+=]|[-=]|= [^=])/\<close>, anchored at the start of the string: a character of the class
  \<open>[+=]\<close>, or one of the class \<open>[-=]\<close>, or \<open>=\<close>, a space and a character other than
  \<open>=\<close>.
\<close>

definition matchStateChangeAt :: "jsstring \<Rightarrow> bool" where
  "matchStateChangeAt s =
     (case s of
        [] \<Rightarrow> False
      | c # r \<Rightarrow> (c = 0x2B \<or> c = 0x3D) \<or> (c = 0x2D \<or> c = 0x3D)
          \<or> (c = 0x3D \<and> (case r of d # e # _ \<Rightarrow> d = SP \<and> e \<noteq> 0x3D | _ \<Rightarrow> False)))"

definition matchesStateChange :: "jsstring \<Rightarrow> bool" where
  "matchesStateChange ln = regexSearch matchStateChangeAt ln"

text \<open>
  \<open>kw\s+(\w+)\<close> for a keyword \<open>kw\<close>, anchored at the start of the string: the matched
  text and the text of group 1.  Both quantifiers are greedy, and white space and word
  characters are disjoint, so the match takes both runs whole.
\<close>

definition matchKeywordWordAt :: "string \<Rightarrow> jsstring \<Rightarrow> (jsstring \<times> jsstring) option" where
  "matchKeywordWordAt kw s =
     (if startsWith s (lit kw) then
        (let r = drop (length kw) s;
             ws = takeWhile isWhiteSpace r;
             w = takeWhile isWordChar (dropWhile isWhiteSpace r)
         in if ws \<noteq> [] \<and> w \<noteq> [] then Some (lit kw @ ws @ w, w) else None)
      else None)"

text \<open>
  \<open>s.match(/function\s+(\w+)/)?.[1]\<close>: group 1 of the leftmost match, \<open>None\<close> when the
  expression does not match.
\<close>

fun matchFunctionName :: "jsstring \<Rightarrow> jsstring option" where
  "matchFunctionName [] = None"
| "matchFunctionName (c # cs) =
     (case matchKeywordWordAt ''function'' (c # cs) of
        Some (m, g) \<Rightarrow> Some g
      | None \<Rightarrow> matchFunctionName cs)"

text \<open>
  \<open>s.match(/modifier\s+(\w+)/g)\<close>: the texts of all matches, from left to right, each
  search starting where the previous match ended.  The first argument counts the code
  units of the previous match that are still to be skipped.  No match gives the empty
  list, which is what \<open>?.map(...) || []\<close> makes of \<open>null\<close>.
\<close>

fun matchAllModifiers :: "nat \<Rightarrow> jsstring \<Rightarrow> jsstring list" where
  "matchAllModifiers k [] = []"
| "matchAllModifiers (Suc k) (c # cs) = matchAllModifiers k cs"
| "matchAllModifiers 0 (c # cs) =
     (case matchKeywordWordAt ''modifier'' (c # cs) of
        Some (m, g) \<Rightarrow> m # matchAllModifiers (length m - 1) cs
      | None \<Rightarrow> matchAllModifiers 0 cs)"

section \<open>The function analyzer\<close>

datatype visibility_kind = Public | Private | Internal | External

text \<open>The \<open>currentFunction\<close> object; \<open>None\<close> in the field \<open>visibility\<close> is \<open>undefined\<close>.\<close>

record functionRecord =
  code :: jsstring
  hasExternalCall :: bool
  hasStateChange :: bool
  isPayable :: bool
  visibility :: "visibility_kind option"
  hasModifier :: bool
  modifiers :: "jsstring list"

definition visibilityFinding :: "int \<Rightarrow> finding" where
  "visibilityFinding ln =
     \<lparr>severity = Medium, message = ''Public function without state mutability specifier'',
      line = ln, column = 1, rule = ''visibility'',
      description = ''Public functions should explicitly declare their state mutability.'',
      recommendation = ''Add stateMutability specifier (pure, view, payable, or nonpayable) to the function.''\<rparr>"

definition payableFinding :: "int \<Rightarrow> finding" where
  "payableFinding ln =
     \<lparr>severity = Medium, message = ''Payable function without value validation'',
      line = ln, column = 1, rule = ''payable-validation'',
      description = ''Payable functions should validate the received value.'',
      recommendation = ''Add require(msg.value > 0) or similar validation at the start of the function.''\<rparr>"

definition reentrancyFinding :: "int \<Rightarrow> finding" where
  "reentrancyFinding ln =
     \<lparr>severity = High, message = ''Potential reentrancy vulnerability detected'',
      line = ln, column = 1, rule = ''reentrancy'',
      description = ''State changes are made after external calls, which could lead to reentrancy attacks.'',
      recommendation = ''Use the Checks-Effects-Interactions pattern or a reentrancy guard.''\<rparr>"

definition unprotectedInitFinding :: "int \<Rightarrow> finding" where
  "unprotectedInitFinding ln =
     \<lparr>severity = High, message = ''Unprotected initialization function'',
      line = ln, column = 1, rule = ''unprotected-init'',
      description = ''Initialization function should be protected from multiple calls.'',
      recommendation = ''Add an initialization guard using a boolean flag.''\<rparr>"

definition unprotectedUpgradeFinding :: "int \<Rightarrow> finding" where
  "unprotectedUpgradeFinding ln =
     \<lparr>severity = High, message = ''Unprotected upgrade function'',
      line = ln, column = 1, rule = ''unprotected-upgrade'',
      description = ''Upgrade functions should be protected with access control.'',
      recommendation = ''Add onlyOwner modifier or similar access control.''\<rparr>"

definition unprotectedWithdrawFinding :: "int \<Rightarrow> finding" where
  "unprotectedWithdrawFinding ln =
     \<lparr>severity = High, message = ''Unprotected withdraw function'',
      line = ln, column = 1, rule = ''unprotected-withdraw'',
      description = ''Withdraw functions should be protected with access control.'',
      recommendation = ''Add onlyOwner modifier or similar access control.''\<rparr>"

definition unprotectedSelfdestructFinding :: "int \<Rightarrow> finding" where
  "unprotectedSelfdestructFinding ln =
     \<lparr>severity = High, message = ''Unprotected selfdestruct function'',
      line = ln, column = 1, rule = ''unprotected-selfdestruct'',
      description = ''Selfdestruct functions should be protected with access control.'',
      recommendation = ''Add onlyOwner modifier or similar access control.''\<rparr>"

text \<open>
  \<open>analyzeFunction\<close> pushes onto the shared \<open>results\<close> array in four blocks.  Each block
  is modelled by the list of findings it pushes, in order.
\<close>

text \<open>"Check visibility"\<close>

definition checkVisibility :: "functionRecord \<Rightarrow> int \<Rightarrow> finding list" where
  "checkVisibility func startLine =
     (if visibility func = Some Public \<and> \<not> js_includes (code func) (lit ''pure'')
         \<and> \<not> js_includes (code func) (lit ''view'')
      then [visibilityFinding (startLine + 1)] else [])"

text \<open>"Check payable functions"\<close>

definition checkPayable :: "functionRecord \<Rightarrow> int \<Rightarrow> finding list" where
  "checkPayable func startLine =
     (let lines = split_nl (code func) in
      if isPayable func then
        (let hasValueValidation =
               list_ex (\<lambda>ln. startsWith (trim ln) (lit ''require(msg.value'')
                            \<or> startsWith (trim ln) (lit ''if (msg.value'')) lines
         in if \<not> hasValueValidation then [payableFinding (startLine + 1)] else [])
      else [])"

text \<open>"Check for reentrancy"\<close>

definition stateChangeIndex :: "functionRecord \<Rightarrow> int" where
  "stateChangeIndex func = findIndex (\<lambda>ln i. matchesStateChange ln) (split_nl (code func))"

definition externalCallIndex :: "functionRecord \<Rightarrow> int" where
  "externalCallIndex func = findIndex (\<lambda>ln i. matchesExternalCall ln) (split_nl (code func))"

definition checkReentrancy :: "functionRecord \<Rightarrow> int \<Rightarrow> finding list" where
  "checkReentrancy func startLine =
     (if hasExternalCall func \<and> hasStateChange func then
        (if stateChangeIndex func > externalCallIndex func
         then [reentrancyFinding (startLine + 1)] else [])
      else [])"

text \<open>"Check for unprotected functions"\<close>

definition checkUnprotected :: "functionRecord \<Rightarrow> int \<Rightarrow> finding list" where
  "checkUnprotected func startLine =
     (let lines = split_nl (code func);
          functionName = (case matchFunctionName (code func) of Some g \<Rightarrow> g | None \<Rightarrow> []);
          isProtected = (hasModifier func \<and> lit ''onlyOwner'' \<in> set (modifiers func))
      in if \<not> isProtected then
           (if functionName = lit ''initialize'' then [unprotectedInitFinding (startLine + 1)] else [])
           @ (if functionName = lit ''upgrade'' then [unprotectedUpgradeFinding (startLine + 1)] else [])
           @ (if functionName = lit ''withdraw'' then [unprotectedWithdrawFinding (startLine + 1)] else [])
           @ (if list_ex (\<lambda>ln. js_includes ln (lit ''selfdestruct'')) lines
              then [unprotectedSelfdestructFinding (startLine + 1)] else [])
         else [])"

definition analyzeFunction :: "functionRecord \<Rightarrow> int \<Rightarrow> finding list \<Rightarrow> finding list" where
  "analyzeFunction func startLine results =
     results @ checkVisibility func startLine @ checkPayable func startLine
       @ checkReentrancy func startLine @ checkUnprotected func startLine"

section \<open>The extractor and the orchestrator\<close>

definition syntaxFinding :: finding where
  "syntaxFinding =
     \<lparr>severity = Error, message = ''No contract declaration found'',
      line = 1, column = 1, rule = ''syntax'',
      description = ''The code must contain a contract declaration.'',
      recommendation = (''Add a contract declaration using 'contract ContractName {'' @ [CHR 0x27])\<rparr>"

definition stateVisibilityFinding :: "int \<Rightarrow> finding" where
  "stateVisibilityFinding ln =
     \<lparr>severity = Low, message = ''Public state variable without getter'',
      line = ln, column = 1, rule = ''state-visibility'',
      description = ''Public state variables automatically create getters, which may expose sensitive data.'',
      recommendation = ''Consider using private visibility with explicit getter functions for better control.''\<rparr>"

text \<open>
  \<open>stateVariables.forEach((line, index) => ...)\<close>: the second argument is the index of
  the first line of the list within \<open>stateVariables\<close>.
\<close>

fun checkStateVariables :: "int \<Rightarrow> int \<Rightarrow> jsstring list \<Rightarrow> finding list \<Rightarrow> finding list" where
  "checkStateVariables contractLine index [] results = results"
| "checkStateVariables contractLine index (ln # rest) results =
     checkStateVariables contractLine (index + 1) rest
       (if js_includes ln (lit ''public'') \<and> \<not> js_includes ln (lit ''constant'')
           \<and> \<not> js_includes ln (lit ''immutable'')
        then results @ [stateVisibilityFinding (contractLine + index + 2)]
        else results)"

text \<open>The record opened by a line that starts with \<open>function\<close>.\<close>

definition newFunction :: "jsstring \<Rightarrow> functionRecord" where
  "newFunction ln =
     (let visibility =
            (if js_includes ln (lit ''public'') then Some Public
             else if js_includes ln (lit ''private'') then Some Private
             else if js_includes ln (lit ''internal'') then Some Internal
             else if js_includes ln (lit ''external'') then Some External
             else None);
          modifiers = map (\<lambda>m. replaceFirst m (lit ''modifier '') []) (matchAllModifiers 0 ln)
      in \<lparr>code = ln, hasExternalCall = False, hasStateChange = False,
          isPayable = js_includes ln (lit ''payable''), visibility = visibility,
          hasModifier = (length modifiers > 0), modifiers = modifiers\<rparr>)"

text \<open>What any other line does to the current record.\<close>

definition appendLine :: "functionRecord \<Rightarrow> jsstring \<Rightarrow> functionRecord" where
  "appendLine func ln =
     (let func = func\<lparr>code := code func @ [NL] @ ln\<rparr>;
          func = (if matchesExternalCall ln then func\<lparr>hasExternalCall := True\<rparr> else func);
          func = (if matchesStateChange ln then func\<lparr>hasStateChange := True\<rparr> else func)
      in func)"

text \<open>
  The loop \<open>for (let i = 0; i < lines.length; i++)\<close> over the lines from index \<open>i\<close> on.
  Its state is \<open>currentFunction\<close> (\<open>None\<close> is \<open>null\<close>), \<open>functionStartLine\<close> and
  \<open>results\<close>.
\<close>

fun scanLines :: "jsstring list \<Rightarrow> int \<Rightarrow> functionRecord option \<Rightarrow> int \<Rightarrow> finding list
    \<Rightarrow> functionRecord option \<times> int \<times> finding list" where
  "scanLines [] i currentFunction functionStartLine results =
     (currentFunction, functionStartLine, results)"
| "scanLines (ln # rest) i currentFunction functionStartLine results =
     (if startsWith ln (lit ''function'') then
        scanLines rest (i + 1) (Some (newFunction ln)) i
          (case currentFunction of
             Some func \<Rightarrow> analyzeFunction func functionStartLine results
           | None \<Rightarrow> results)
      else
        (case currentFunction of
           Some func \<Rightarrow> scanLines rest (i + 1) (Some (appendLine func ln)) functionStartLine results
         | None \<Rightarrow> scanLines rest (i + 1) None functionStartLine results))"

text \<open>
  The merge of one rule result: it is pushed unless \<open>results\<close> already holds a finding
  of the same rule at most two lines away.
\<close>

definition similar :: "finding \<Rightarrow> finding \<Rightarrow> bool" where
  "similar r result = (rule r = rule result \<and> \<bar>line r - line result\<bar> \<le> 2)"

definition mergeResult :: "finding list \<Rightarrow> finding \<Rightarrow> finding list" where
  "mergeResult results result =
     (if \<not> list_ex (\<lambda>r. similar r result) results then results @ [result] else results)"

text \<open>\<open>rules.forEach((rule) => ...)\<close> for the line \<open>ln\<close> at index \<open>index\<close>.\<close>

fun applyRulesToLine :: "(jsstring \<Rightarrow> int \<Rightarrow> finding option) list \<Rightarrow> jsstring \<Rightarrow> int
    \<Rightarrow> finding list \<Rightarrow> finding list" where
  "applyRulesToLine [] ln index results = results"
| "applyRulesToLine (check # rest) ln index results =
     applyRulesToLine rest ln index
       (case check ln (index + 1) of
          Some result \<Rightarrow> mergeResult results result
        | None \<Rightarrow> results)"

text \<open>\<open>lines.forEach((line, index) => ...)\<close> from index \<open>index\<close> on.\<close>

fun applyRules :: "jsstring list \<Rightarrow> int \<Rightarrow> finding list \<Rightarrow> finding list" where
  "applyRules [] index results = results"
| "applyRules (ln # rest) index results =
     applyRules rest (index + 1) (applyRulesToLine rules ln index results)"

text \<open>
  The results that the checks return for the line \<open>ln\<close> at index \<open>index\<close>, in the
  order of the catalog, and the results for all lines from index \<open>index\<close> on, in the
  order in which the two nested \<open>forEach\<close> loops reach them.  These are the candidates of
  the merge; they do not depend on what has been merged so far.
\<close>

fun ruleResultsOfLine :: "(jsstring \<Rightarrow> int \<Rightarrow> finding option) list \<Rightarrow> jsstring \<Rightarrow> int
    \<Rightarrow> finding list" where
  "ruleResultsOfLine [] ln index = []"
| "ruleResultsOfLine (check # rest) ln index =
     (case check ln (index + 1) of Some result \<Rightarrow> [result] | None \<Rightarrow> [])
       @ ruleResultsOfLine rest ln index"

fun ruleResults :: "jsstring list \<Rightarrow> int \<Rightarrow> finding list" where
  "ruleResults [] index = []"
| "ruleResults (ln # rest) index =
     ruleResultsOfLine rules ln index @ ruleResults rest (index + 1)"

text \<open>\<open>code.split("\n").map((line) => line.trim())\<close>\<close>

definition trimmedLines :: "jsstring \<Rightarrow> jsstring list" where
  "trimmedLines source = map trim (split_nl source)"

text \<open>\<open>lines.findIndex((line) => line.startsWith("contract"))\<close>\<close>

definition findContractLine :: "jsstring list \<Rightarrow> int" where
  "findContractLine lines = findIndex (\<lambda>ln i. startsWith ln (lit ''contract'')) lines"

text \<open>
  \<open>lines.findIndex((line, index) => index > contractLine && line.startsWith("function"))\<close>
\<close>

definition findFirstFunctionLine :: "int \<Rightarrow> jsstring list \<Rightarrow> int" where
  "findFirstFunctionLine contractLine lines =
     findIndex (\<lambda>ln index. index > contractLine \<and> startsWith ln (lit ''function'')) lines"

definition analyzeContractSimple :: "jsstring \<Rightarrow> finding list" where
  "analyzeContractSimple source =
     (let lines = trimmedLines source;
          contractLine = findContractLine lines
      in if contractLine = -1 then [syntaxFinding]
         else
           (let firstFunctionLine = findFirstFunctionLine contractLine lines;
                stateVariables = js_slice lines (contractLine + 1) firstFunctionLine;
                results = checkStateVariables contractLine 0 stateVariables [];
                (currentFunction, functionStartLine, results) = scanLines lines 0 None 0 results;
                results = (case currentFunction of
                             Some func \<Rightarrow> analyzeFunction func functionStartLine results
                           | None \<Rightarrow> results)
            in applyRules lines 0 results))"

definition inputValidationFinding :: finding where
  "inputValidationFinding =
     \<lparr>severity = Error, message = ''Invalid source code provided'',
      line = 1, column = 1, rule = ''input-validation'',
      description = ''The provided source code is empty or invalid.'',
      recommendation = ''Please provide valid Solidity source code.''\<rparr>"

definition analysisCompleteFinding :: finding where
  "analysisCompleteFinding =
     \<lparr>severity = Info, message = ''No issues found'',
      line = 1, column = 1, rule = ''analysis-complete'',
      description = ''The contract analysis completed successfully with no issues detected.'',
      recommendation = ''Continue monitoring for potential vulnerabilities as the contract evolves.''\<rparr>"

definition internalErrorFinding :: finding where
  "internalErrorFinding =
     \<lparr>severity = Error, message = ''Analysis error'',
      line = 1, column = 1, rule = ''internal-error'',
      description = ''An error occurred while analyzing the contract.'',
      recommendation = ''Please try again or contact support if the issue persists.''\<rparr>"

text \<open>
  The replacement of an empty or info-only result by the "No issues found" entry.
\<close>

definition finalize :: "finding list \<Rightarrow> finding list" where
  "finalize results =
     (if length results = 0 \<or> list_all (\<lambda>r. severity r = Info) results
      then [analysisCompleteFinding] else results)"

text \<open>
  After the results are final, \<open>analyzeContract\<close> awaits the persistence client
  (\<open>supabase.auth.getUser\<close>, then \<open>insert\<close> for a signed-in user).  The client is outside
  the analyzer; all that reaches the result is whether these calls complete or throw, in
  which case the \<open>catch\<close> block answers.  Nothing else inside the \<open>try\<close> block throws.
\<close>

datatype persistence = Completes | Throws

text \<open>
  The parameter has type \<open>string\<close> in the source, so \<open>typeof sourceCode !== "string"\<close> is
  false and \<open>!sourceCode\<close> holds for the empty string only.
\<close>

definition analyzeContract :: "persistence \<Rightarrow> jsstring \<Rightarrow> finding list" where
  "analyzeContract store sourceCode =
     (if sourceCode = [] then [inputValidationFinding]
      else
        (let processedCode = preprocessSolidityCode sourceCode;
             results = finalize (analyzeContractSimple processedCode)
         in case store of
              Completes \<Rightarrow> results
            | Throws \<Rightarrow> [internalErrorFinding]))"

text \<open>Joining lines with \<open>"\n"\<close>, to write multi-line source texts.\<close>

fun joinLines :: "jsstring list \<Rightarrow> jsstring" where
  "joinLines [] = []"
| "joinLines [l] = l"
| "joinLines (l # ls) = l @ [NL] @ joinLines ls"

section \<open>Source texts used as examples\<close>

text \<open>A function whose only body line both assigns and makes an external call.\<close>

abbreviation callAndChangeOnOneLine :: functionRecord where
  "callAndChangeOnOneLine \<equiv>
     appendLine (newFunction (lit ''function f() {'')) (lit ''x = y.call(z);'')"

text \<open>A function that makes the external call first and changes the state after it.\<close>

abbreviation callThenChange :: jsstring where
  "callThenChange \<equiv> joinLines
     [lit ''contract Bank {'',
      lit ''function withdraw(uint amount) public {'',
      lit ''msg.sender.call{value: amount}(\"\");'',
      lit ''balances[msg.sender] -= amount;'',
      lit ''}'',
      lit ''}'']"

text \<open>The same function with the two lines in the other order.\<close>

abbreviation changeThenCall :: jsstring where
  "changeThenCall \<equiv> joinLines
     [lit ''contract Bank {'',
      lit ''function withdraw(uint amount) public {'',
      lit ''balances[msg.sender] -= amount;'',
      lit ''msg.sender.call{value: amount}(\"\");'',
      lit ''}'',
      lit ''}'']"

text \<open>
  A function whose external call precedes its state change, so that the function
  analyzer reports it at line 2, and whose line 3 makes the line rule \<open>reentrancy\<close>
  fire as well.
\<close>

abbreviation reportedTwice :: jsstring where
  "reportedTwice \<equiv> joinLines
     [lit ''contract C {'',
      lit ''function pay() {'',
      lit ''a.send(balances[b]);'',
      lit ''c -= 1;'',
      lit ''}'']"

text \<open>
  A contract without a function line whose public state variable stands on its last
  line.
\<close>

abbreviation publicOnLastLine :: jsstring where
  "publicOnLastLine \<equiv> joinLines [lit ''contract C {'', lit ''uint public value; }'']"

section \<open>What the string operations compute\<close>

lemma startsWith_iff: "startsWith s p \<longleftrightarrow> (\<exists>v. s = p @ v)"
  by (induction s p rule: startsWith.induct) auto

lemma js_includes_iff: "js_includes s p \<longleftrightarrow> (\<exists>u v. s = u @ p @ v)"
proof (induction s)
  case Nil
  show ?case by (simp add: startsWith_iff)
next
  case (Cons c cs)
  have "(\<exists>u v. c # cs = u @ p @ v) \<longleftrightarrow> (\<exists>v. c # cs = p @ v) \<or> (\<exists>u v. cs = u @ p @ v)"
  proof
    assume "\<exists>u v. c # cs = u @ p @ v"
    then obtain u v where uv: "c # cs = u @ p @ v" by blast
    show "(\<exists>v. c # cs = p @ v) \<or> (\<exists>u v. cs = u @ p @ v)"
    proof (cases u)
      case Nil
      with uv show ?thesis by auto
    next
      case (Cons a u')
      with uv have "cs = u' @ p @ v" by simp
      then show ?thesis by blast
    qed
  next
    assume "(\<exists>v. c # cs = p @ v) \<or> (\<exists>u v. cs = u @ p @ v)"
    then show "\<exists>u v. c # cs = u @ p @ v"
    proof
      assume "\<exists>v. c # cs = p @ v"
      then obtain v where "c # cs = [] @ p @ v" by auto
      then show ?thesis by blast
    next
      assume "\<exists>u v. cs = u @ p @ v"
      then obtain u v where "c # cs = (c # u) @ p @ v" by auto
      then show ?thesis by blast
    qed
  qed
  with Cons show ?case by (simp add: startsWith_iff)
qed

lemma js_includes_append_left: "js_includes s p \<Longrightarrow> js_includes (s @ t) p"
  unfolding js_includes_iff by (metis append.assoc)


section \<open>What the regular expressions match\<close>

lemma regexSearch_iff: "regexSearch m s \<longleftrightarrow> (\<exists>u v. s = u @ v \<and> m v)"
  by (induction s) (auto simp: Cons_eq_append_conv)

lemma length_lit: "length (lit k) = length k"
  by (simp add: lit_def)

lemma bracket_not_space: "\<not> isWhiteSpace 0x28" "\<not> isWhiteSpace 0x7B"
  by (simp_all add: isWhiteSpace_def)

lemma afterKeyword_iff:
  "afterKeyword k r \<longleftrightarrow>
     (\<exists>w b t. r = lit k @ w @ [b] @ t \<and> (\<forall>c \<in> set w. isWhiteSpace c) \<and> (b = 0x28 \<or> b = 0x7B))"
proof
  assume a: "afterKeyword k r"
  then obtain r' where r: "r = lit k @ r'"
    by (auto simp: afterKeyword_def startsWith_iff)
  then have d: "drop (length k) r = r'"
    by (simp add: length_lit)
  with a obtain b t where bt: "dropWhile isWhiteSpace r' = b # t" and b: "b = 0x28 \<or> b = 0x7B"
    by (auto simp: afterKeyword_def split: list.splits)
  have "r' = takeWhile isWhiteSpace r' @ [b] @ t"
    using takeWhile_dropWhile_id [of isWhiteSpace r'] bt by simp
  moreover have "\<forall>c \<in> set (takeWhile isWhiteSpace r'). isWhiteSpace c"
    by (auto dest: set_takeWhileD)
  ultimately show "\<exists>w b t. r = lit k @ w @ [b] @ t \<and> (\<forall>c \<in> set w. isWhiteSpace c) \<and> (b = 0x28 \<or> b = 0x7B)"
    using r b by blast
next
  assume "\<exists>w b t. r = lit k @ w @ [b] @ t \<and> (\<forall>c \<in> set w. isWhiteSpace c) \<and> (b = 0x28 \<or> b = 0x7B)"
  then obtain w b t where r: "r = lit k @ w @ [b] @ t" and w: "\<forall>c \<in> set w. isWhiteSpace c"
    and b: "b = 0x28 \<or> b = 0x7B" by blast
  from b have nb: "\<not> isWhiteSpace b"
    using bracket_not_space by auto
  have "dropWhile isWhiteSpace (w @ b # t) = b # t"
    using w nb by simp
  moreover have "drop (length k) r = w @ b # t"
    by (simp add: r length_lit)
  moreover have "startsWith r (lit k)"
    by (simp add: startsWith_iff r)
  ultimately show "afterKeyword k r"
    using b by (auto simp: afterKeyword_def)
qed

lemma matchExternalCallAt_iff:
  "matchExternalCallAt s \<longleftrightarrow>
     (\<exists>k w b t. s = [0x2E] @ lit k @ w @ [b] @ t \<and> k \<in> {''call'', ''send'', ''transfer''}
        \<and> (\<forall>c \<in> set w. isWhiteSpace c) \<and> (b = 0x28 \<or> b = 0x7B))"
proof (cases s)
  case Nil
  then show ?thesis by (simp add: matchExternalCallAt_def)
next
  case (Cons c r)
  have "matchExternalCallAt s \<longleftrightarrow> c = 0x2E \<and> (\<exists>k \<in> {''call'', ''send'', ''transfer''}. afterKeyword k r)"
    by (auto simp: matchExternalCallAt_def Cons)
  also have "\<dots> \<longleftrightarrow> (\<exists>k w b t. s = [0x2E] @ lit k @ w @ [b] @ t \<and> k \<in> {''call'', ''send'', ''transfer''}
        \<and> (\<forall>c \<in> set w. isWhiteSpace c) \<and> (b = 0x28 \<or> b = 0x7B))"
    unfolding afterKeyword_iff Cons
    by (simp only: append_Cons append_Nil list.inject) blast
  finally show ?thesis .
qed

lemma matchesExternalCall_iff:
  "matchesExternalCall ln \<longleftrightarrow>
     (\<exists>u k w b v. ln = u @ [0x2E] @ lit k @ w @ [b] @ v \<and> k \<in> {''call'', ''send'', ''transfer''}
        \<and> (\<forall>c \<in> set w. isWhiteSpace c) \<and> (b = 0x28 \<or> b = 0x7B))"
  unfolding matchesExternalCall_def regexSearch_iff matchExternalCallAt_iff by blast

lemma matchStateChangeAt_iff:
  "matchStateChangeAt s \<longleftrightarrow> (\<exists>c r. s = c # r \<and> (c = 0x2B \<or> c = 0x2D \<or> c = 0x3D))"
  by (cases s) (auto simp: matchStateChangeAt_def)

lemma matchesStateChange_iff:
  "matchesStateChange ln \<longleftrightarrow> (0x2B \<in> set ln \<or> 0x2D \<in> set ln \<or> 0x3D \<in> set ln)"
proof -
  have "matchesStateChange ln \<longleftrightarrow> (\<exists>u c r. ln = u @ c # r \<and> (c = 0x2B \<or> c = 0x2D \<or> c = 0x3D))"
    unfolding matchesStateChange_def regexSearch_iff matchStateChangeAt_iff by blast
  also have "\<dots> \<longleftrightarrow> (\<exists>c \<in> set ln. c = 0x2B \<or> c = 0x2D \<or> c = 0x3D)"
    by (metis in_set_conv_decomp)
  finally show ?thesis by blast
qed

lemma js_includes_set: "js_includes ln p \<Longrightarrow> set p \<subseteq> set ln"
  by (auto simp: js_includes_iff)


section \<open>Properties of the preprocessor\<close>

lemma replaceCRLF_id: "CR \<notin> set s \<Longrightarrow> replaceCRLF s = s"
  by (induction s rule: replaceCRLF.induct) auto

lemma replaceCR_id: "CR \<notin> set s \<Longrightarrow> replaceCR s = s"
  by (induction s) (auto simp: replaceCR_def)

lemma replaceCR_no_CR: "CR \<notin> set (replaceCR s)"
  by (auto simp: replaceCR_def)

lemma replaceTAB_id: "TAB \<notin> set s \<Longrightarrow> replaceTAB s = s"
  by (induction s) (auto simp: replaceTAB_def)

lemma replaceTAB_no_TAB: "TAB \<notin> set (replaceTAB s)"
  by (auto simp: replaceTAB_def)

lemma replaceTAB_no_CR: "CR \<notin> set s \<Longrightarrow> CR \<notin> set (replaceTAB s)"
  by (auto simp: replaceTAB_def split: if_splits)

lemma set_trim: "set (trim s) \<subseteq> set s"
proof -
  have "set (trim s) \<subseteq> set (dropWhile isWhiteSpace s)"
    unfolding trim_def using set_dropWhileD by fastforce
  also have "\<dots> \<subseteq> set s" using set_dropWhileD by fastforce
  finally show ?thesis .
qed

lemma trim_start_fixed: "dropWhile isWhiteSpace (trim s) = trim s"
proof -
  define a where "a = dropWhile isWhiteSpace s"
  define d where "d = dropWhile isWhiteSpace (rev a)"
  have t: "trim s = rev d"
    by (simp add: trim_def a_def d_def)
  show ?thesis
  proof (cases "d = []")
    case True
    then show ?thesis by (simp add: t)
  next
    case False
    have "rev a = takeWhile isWhiteSpace (rev a) @ d"
      by (simp add: d_def)
    then have "rev (rev a) = rev (takeWhile isWhiteSpace (rev a) @ d)"
      by simp
    then have a: "a = rev d @ rev (takeWhile isWhiteSpace (rev a))"
      by simp
    from False have "rev d \<noteq> []" by simp
    with a have hd: "hd a = hd (rev d)"
      by (metis hd_append2)
    from a \<open>rev d \<noteq> []\<close> have "a \<noteq> []" by auto
    then have "\<not> isWhiteSpace (hd a)"
      unfolding a_def by (rule hd_dropWhile)
    with hd show ?thesis
      by (simp add: t dropWhile_eq_self_iff)
  qed
qed

lemma trim_end_fixed: "dropWhile isWhiteSpace (rev (trim s)) = rev (trim s)"
  by (simp add: trim_def)

lemma trim_idem: "trim (trim s) = trim s"
proof -
  have "trim (trim s) = rev (dropWhile isWhiteSpace (rev (dropWhile isWhiteSpace (trim s))))"
    by (rule trim_def)
  also have "\<dots> = rev (dropWhile isWhiteSpace (rev (trim s)))"
    by (simp only: trim_start_fixed)
  also have "\<dots> = trim s"
    by (simp only: trim_end_fixed rev_rev_ident)
  finally show ?thesis .
qed

lemma preprocess_no_CR: "CR \<notin> set (preprocessSolidityCode x)"
  unfolding preprocessSolidityCode_def
  using set_trim replaceTAB_no_CR [OF replaceCR_no_CR] by blast

lemma preprocess_no_TAB: "TAB \<notin> set (preprocessSolidityCode x)"
  unfolding preprocessSolidityCode_def
  using set_trim replaceTAB_no_TAB by blast

lemma preprocess_trimmed: "trim (preprocessSolidityCode x) = preprocessSolidityCode x"
  by (simp add: preprocessSolidityCode_def trim_idem)

text \<open>
  C6.  The preprocessor is a total function and it is idempotent: preprocessing a
  preprocessed text changes nothing.  Its result holds no carriage return and no tab,
  and trimming it again leaves it as it is.
\<close>

theorem preprocess_idempotent:
  "preprocessSolidityCode (preprocessSolidityCode x) = preprocessSolidityCode x
   \<and> CR \<notin> set (preprocessSolidityCode x)
   \<and> TAB \<notin> set (preprocessSolidityCode x)
   \<and> trim (preprocessSolidityCode x) = preprocessSolidityCode x"
proof -
  let ?y = "preprocessSolidityCode x"
  have "preprocessSolidityCode ?y = trim (replaceTAB (replaceCR (replaceCRLF ?y)))"
    by (rule preprocessSolidityCode_def)
  also have "\<dots> = trim ?y"
    by (simp only: replaceCRLF_id [OF preprocess_no_CR] replaceCR_id [OF preprocess_no_CR]
        replaceTAB_id [OF preprocess_no_TAB])
  also have "\<dots> = ?y"
    by (rule preprocess_trimmed)
  finally show ?thesis
    using preprocess_no_CR preprocess_no_TAB preprocess_trimmed by blast
qed

theorem preprocess_idempotent_witness:
  "preprocessSolidityCode (lit '' a'' @ [CR, NL, TAB] @ lit ''b'' @ [CR]) = lit ''a'' @ [NL] @ lit ''    b''
   \<and> preprocessSolidityCode (preprocessSolidityCode (lit '' a'' @ [CR, NL, TAB] @ lit ''b'' @ [CR]))
       = lit ''a'' @ [NL] @ lit ''    b''"
proof -
  have e: "preprocessSolidityCode (lit '' a'' @ [CR, NL, TAB] @ lit ''b'' @ [CR])
      = lit ''a'' @ [NL] @ lit ''    b''"
    by code_simp
  show ?thesis
    using preprocess_idempotent [of "lit '' a'' @ [CR, NL, TAB] @ lit ''b'' @ [CR]"] e by simp
qed


section \<open>The rule \<open>unchecked-send\<close>\<close>

text \<open>
  C9.  The check of the rule \<open>unchecked-send\<close>, given a line and its 1-based number,
  returns a finding of severity medium, rule \<open>unchecked-send\<close>, at that line and column
  1, exactly when the line contains \<open>.send(\<close> or \<open>.transfer(\<close> and none of
  \<open>require(\<close>, \<open>if (\<close> and \<open>assert(\<close>; otherwise it returns nothing.  Here a line
  contains a text when the text occurs in it somewhere, which is what \<open>includes\<close>
  decides.
\<close>

theorem unchecked_send_rule:
  "check_unchecked_send ln n =
     (if (js_includes ln (lit ''.send('') \<or> js_includes ln (lit ''.transfer(''))
         \<and> \<not> (js_includes ln (lit ''require('') \<or> js_includes ln (lit ''if ('')
                \<or> js_includes ln (lit ''assert(''))
      then Some \<lparr>severity = Medium, message = ''Unchecked send/transfer detected'',
             line = n, column = 1, rule = ''unchecked-send'',
             description = ''Unchecked return value from send/transfer call.'',
             recommendation = ''Always check the return value of send/transfer calls.''\<rparr>
      else None)
   \<and> (js_includes ln p \<longleftrightarrow> (\<exists>u v. ln = u @ p @ v))"
  by (simp add: check_unchecked_send_def js_includes_iff)

theorem unchecked_send_rule_witness:
  "check_unchecked_send (lit ''to.send(amount);'') 7 =
     Some \<lparr>severity = Medium, message = ''Unchecked send/transfer detected'',
       line = 7, column = 1, rule = ''unchecked-send'',
       description = ''Unchecked return value from send/transfer call.'',
       recommendation = ''Always check the return value of send/transfer calls.''\<rparr>
   \<and> check_unchecked_send (lit ''require(to.send(amount));'') 7 = None
   \<and> check_unchecked_send (lit ''x = 1;'') 7 = None"
proof -
  have a: "js_includes (lit ''to.send(amount);'') (lit ''.send('')"
    "\<not> js_includes (lit ''to.send(amount);'') (lit ''require('')"
    "\<not> js_includes (lit ''to.send(amount);'') (lit ''if ('')"
    "\<not> js_includes (lit ''to.send(amount);'') (lit ''assert('')"
    by code_simp+
  have b: "js_includes (lit ''require(to.send(amount));'') (lit ''require('')"
    by code_simp
  have c: "\<not> js_includes (lit ''x = 1;'') (lit ''.send('')"
    "\<not> js_includes (lit ''x = 1;'') (lit ''.transfer('')"
    by code_simp+
  show ?thesis
    using unchecked_send_rule [of "lit ''to.send(amount);''" 7]
      unchecked_send_rule [of "lit ''require(to.send(amount));''" 7]
      unchecked_send_rule [of "lit ''x = 1;''" 7] a b c
    by simp
qed


section \<open>The function analyzer\<close>

text \<open>The findings that one call of \<open>analyzeFunction\<close> pushes.\<close>

lemma analyzeFunction_pushed:
  "drop (length results) (analyzeFunction func startLine results) =
     checkVisibility func startLine @ checkPayable func startLine
       @ checkReentrancy func startLine @ checkUnprotected func startLine"
  by (simp add: analyzeFunction_def)

lemma checkPayable_rule: "f \<in> set (checkPayable func startLine) \<Longrightarrow> rule f = ''payable-validation''"
  by (auto simp: checkPayable_def payableFinding_def Let_def split: if_splits)

lemma checkReentrancy_rule: "f \<in> set (checkReentrancy func startLine) \<Longrightarrow> rule f = ''reentrancy''"
  by (auto simp: checkReentrancy_def reentrancyFinding_def split: if_splits)

lemma checkVisibility_rule: "f \<in> set (checkVisibility func startLine) \<Longrightarrow> rule f = ''visibility''"
  by (auto simp: checkVisibility_def visibilityFinding_def split: if_splits)

lemma checkUnprotected_rule:
  "f \<in> set (checkUnprotected func startLine) \<Longrightarrow>
     rule f \<in> {''unprotected-init'', ''unprotected-upgrade'', ''unprotected-withdraw'',
       ''unprotected-selfdestruct''}"
  by (auto simp: checkUnprotected_def unprotectedInitFinding_def unprotectedUpgradeFinding_def
      unprotectedWithdrawFinding_def unprotectedSelfdestructFinding_def Let_def split: if_splits)

text \<open>
  C7.  For a function record whose visibility is public and whose code contains
  neither \<open>pure\<close> nor \<open>view\<close>, the first finding that the function analyzer pushes is
  the medium-severity \<open>visibility\<close> finding "Public function without state mutability
  specifier" at \<open>startLine + 1\<close>.  When the code contains \<open>view\<close>, no finding that the
  analyzer pushes has the rule \<open>visibility\<close>.
\<close>

theorem public_without_mutability:
  "(visibility func = Some Public \<and> \<not> js_includes (code func) (lit ''pure'')
      \<and> \<not> js_includes (code func) (lit ''view'')
    \<longrightarrow> (\<exists>others. analyzeFunction func startLine results =
          results @ [\<lparr>severity = Medium,
             message = ''Public function without state mutability specifier'',
             line = startLine + 1, column = 1, rule = ''visibility'',
             description = ''Public functions should explicitly declare their state mutability.'',
             recommendation = ''Add stateMutability specifier (pure, view, payable, or nonpayable) to the function.''\<rparr>]
          @ others))
   \<and> (js_includes (code func) (lit ''view'')
    \<longrightarrow> (\<forall>f \<in> set (drop (length results) (analyzeFunction func startLine results)).
          rule f \<noteq> ''visibility''))"
proof (intro conjI impI)
  assume "visibility func = Some Public \<and> \<not> js_includes (code func) (lit ''pure'')
      \<and> \<not> js_includes (code func) (lit ''view'')"
  then have "checkVisibility func startLine = [visibilityFinding (startLine + 1)]"
    by (simp add: checkVisibility_def)
  then show "\<exists>others. analyzeFunction func startLine results =
          results @ [\<lparr>severity = Medium,
             message = ''Public function without state mutability specifier'',
             line = startLine + 1, column = 1, rule = ''visibility'',
             description = ''Public functions should explicitly declare their state mutability.'',
             recommendation = ''Add stateMutability specifier (pure, view, payable, or nonpayable) to the function.''\<rparr>]
          @ others"
    by (simp add: analyzeFunction_def visibilityFinding_def)
next
  assume "js_includes (code func) (lit ''view'')"
  then have v: "checkVisibility func startLine = []"
    by (simp add: checkVisibility_def)
  show "\<forall>f \<in> set (drop (length results) (analyzeFunction func startLine results)).
          rule f \<noteq> ''visibility''"
  proof
    fix f
    assume "f \<in> set (drop (length results) (analyzeFunction func startLine results))"
    then have "f \<in> set (checkPayable func startLine) \<or> f \<in> set (checkReentrancy func startLine)
        \<or> f \<in> set (checkUnprotected func startLine)"
      by (auto simp: analyzeFunction_pushed v)
    then show "rule f \<noteq> ''visibility''"
      using checkPayable_rule checkReentrancy_rule checkUnprotected_rule by fastforce
  qed
qed

theorem public_without_mutability_witness:
  "analyzeFunction (newFunction (lit ''function test() public {'')) 2 [] =
     [\<lparr>severity = Medium,
       message = ''Public function without state mutability specifier'',
       line = 3, column = 1, rule = ''visibility'',
       description = ''Public functions should explicitly declare their state mutability.'',
       recommendation = ''Add stateMutability specifier (pure, view, payable, or nonpayable) to the function.''\<rparr>]
   \<and> analyzeFunction (newFunction (lit ''function test() public view {'')) 2 [] = []"
proof -
  have a: "visibility (newFunction (lit ''function test() public {'')) = Some Public
      \<and> \<not> js_includes (code (newFunction (lit ''function test() public {''))) (lit ''pure'')
      \<and> \<not> js_includes (code (newFunction (lit ''function test() public {''))) (lit ''view'')"
    by code_simp
  have b: "js_includes (code (newFunction (lit ''function test() public view {''))) (lit ''view'')"
    by code_simp
  have c: "length (analyzeFunction (newFunction (lit ''function test() public {'')) 2 []) = 1"
    by code_simp
  have d: "list_all (\<lambda>f. rule f = ''visibility'')
      (analyzeFunction (newFunction (lit ''function test() public view {'')) 2 [])"
    by code_simp
  from public_without_mutability [of "newFunction (lit ''function test() public {'')" 2 "[]"] a c
  have "analyzeFunction (newFunction (lit ''function test() public {'')) 2 [] =
     [\<lparr>severity = Medium,
       message = ''Public function without state mutability specifier'',
       line = 3, column = 1, rule = ''visibility'',
       description = ''Public functions should explicitly declare their state mutability.'',
       recommendation = ''Add stateMutability specifier (pure, view, payable, or nonpayable) to the function.''\<rparr>]"
    by auto
  moreover from public_without_mutability [of "newFunction (lit ''function test() public view {'')" 2 "[]"] b d
  have "analyzeFunction (newFunction (lit ''function test() public view {'')) 2 [] = []"
    by (cases "analyzeFunction (newFunction (lit ''function test() public view {'')) 2 []") auto
  ultimately show ?thesis by simp
qed


section \<open>The reentrancy check of the function analyzer\<close>

lemma reentrancy_pushed_iff:
  "reentrancyFinding ln \<in> set (drop (length results) (analyzeFunction func startLine results))
     \<longleftrightarrow> reentrancyFinding ln \<in> set (checkReentrancy func startLine)"
proof -
  have r: "rule (reentrancyFinding ln) = ''reentrancy''"
    by (simp add: reentrancyFinding_def)
  have "reentrancyFinding ln \<notin> set (checkVisibility func startLine)"
    using checkVisibility_rule [of "reentrancyFinding ln" func startLine] r by auto
  moreover have "reentrancyFinding ln \<notin> set (checkPayable func startLine)"
    using checkPayable_rule [of "reentrancyFinding ln" func startLine] r by auto
  moreover have "reentrancyFinding ln \<notin> set (checkUnprotected func startLine)"
    using checkUnprotected_rule [of "reentrancyFinding ln" func startLine] r by auto
  ultimately show ?thesis
    by (auto simp: analyzeFunction_pushed)
qed

lemma reentrancy_pushed_is:
  assumes "f \<in> set (drop (length results) (analyzeFunction func startLine results))"
    and "rule f = ''reentrancy''"
  shows "f = reentrancyFinding (startLine + 1)"
proof -
  from assms(1) have "f \<in> set (checkVisibility func startLine) \<or> f \<in> set (checkPayable func startLine)
      \<or> f \<in> set (checkReentrancy func startLine) \<or> f \<in> set (checkUnprotected func startLine)"
    by (auto simp: analyzeFunction_pushed)
  with assms(2) have "f \<in> set (checkReentrancy func startLine)"
    using checkVisibility_rule [of f func startLine] checkPayable_rule [of f func startLine]
      checkUnprotected_rule [of f func startLine] by auto
  then show ?thesis
    by (auto simp: checkReentrancy_def split: if_splits)
qed

lemma callThenChange_result:
  "analyzeContract Completes callThenChange =
     [visibilityFinding 2, reentrancyFinding 2, unprotectedWithdrawFinding 2]"
  by code_simp

lemma changeThenCall_result:
  "analyzeContract Completes changeThenCall =
     [visibilityFinding 2, unprotectedWithdrawFinding 2]"
  by code_simp

text \<open>
  C1, as the code has it.  For a function record with both \<open>hasExternalCall\<close> and
  \<open>hasStateChange\<close> set, the function analyzer pushes the high-severity \<open>reentrancy\<close>
  finding at \<open>startLine + 1\<close> exactly when the first line of the record's code that
  matches the state-change pattern comes strictly after the first line that matches the
  external-call pattern; it pushes no other finding of that rule.  In particular the
  analysis of a function with an external-call line followed by a state-change line
  holds the finding, and with the two lines swapped it holds none.
\<close>

theorem reentrancy_order:
  "(hasExternalCall func \<and> hasStateChange func \<longrightarrow>
      (reentrancyFinding (startLine + 1)
          \<in> set (drop (length results) (analyzeFunction func startLine results)))
        = (externalCallIndex func < stateChangeIndex func))
   \<and> (\<forall>f \<in> set (drop (length results) (analyzeFunction func startLine results)).
        rule f = ''reentrancy'' \<longrightarrow>
          f = reentrancyFinding (startLine + 1) \<and> severity f = High \<and> line f = startLine + 1)
   \<and> reentrancyFinding 2 \<in> set (analyzeContract Completes callThenChange)
   \<and> \<not> list_ex (\<lambda>f. rule f = ''reentrancy'') (analyzeContract Completes changeThenCall)"
proof (intro conjI impI ballI)
  assume "hasExternalCall func \<and> hasStateChange func"
  then show "(reentrancyFinding (startLine + 1)
          \<in> set (drop (length results) (analyzeFunction func startLine results)))
        = (externalCallIndex func < stateChangeIndex func)"
    by (simp add: reentrancy_pushed_iff checkReentrancy_def)
next
  fix f
  assume "f \<in> set (drop (length results) (analyzeFunction func startLine results))"
    and "rule f = ''reentrancy''"
  then have f: "f = reentrancyFinding (startLine + 1)"
    by (rule reentrancy_pushed_is)
  show "f = reentrancyFinding (startLine + 1)" by (rule f)
  show "severity f = High" by (simp add: f reentrancyFinding_def)
  show "line f = startLine + 1" by (simp add: f reentrancyFinding_def)
next
  show "reentrancyFinding 2 \<in> set (analyzeContract Completes callThenChange)"
    by (simp only: callThenChange_result) simp
next
  show "\<not> list_ex (\<lambda>f. rule f = ''reentrancy'') (analyzeContract Completes changeThenCall)"
    by (simp only: changeThenCall_result)
      (simp add: visibilityFinding_def unprotectedWithdrawFinding_def)
qed

theorem reentrancy_order_witness:
  "hasExternalCall (appendLine (appendLine (newFunction (lit ''function f() {''))
        (lit ''a.send(b);'')) (lit ''c -= d;''))
   \<and> hasStateChange (appendLine (appendLine (newFunction (lit ''function f() {''))
        (lit ''a.send(b);'')) (lit ''c -= d;''))
   \<and> externalCallIndex (appendLine (appendLine (newFunction (lit ''function f() {''))
        (lit ''a.send(b);'')) (lit ''c -= d;'')) = 1
   \<and> stateChangeIndex (appendLine (appendLine (newFunction (lit ''function f() {''))
        (lit ''a.send(b);'')) (lit ''c -= d;'')) = 2
   \<and> reentrancyFinding 6 \<in> set (analyzeFunction (appendLine (appendLine
        (newFunction (lit ''function f() {'')) (lit ''a.send(b);'')) (lit ''c -= d;'')) 5 [])"
proof -
  let ?func = "appendLine (appendLine (newFunction (lit ''function f() {''))
        (lit ''a.send(b);'')) (lit ''c -= d;'')"
  have a: "hasExternalCall ?func" "hasStateChange ?func"
    by code_simp+
  have b: "externalCallIndex ?func = 1" "stateChangeIndex ?func = 2"
    by code_simp+
  from reentrancy_order [of ?func 5 "[]"] a b
  have "reentrancyFinding 6 \<in> set (analyzeFunction ?func 5 [])"
    by simp
  with a b show ?thesis by simp
qed

text \<open>
  When both patterns match first on one and the same line, the state-change index is
  not earlier than the external-call index, and yet the analyzer pushes nothing.
\<close>

theorem reentrancy_same_line_counterexample:
  "hasExternalCall callAndChangeOnOneLine \<and> hasStateChange callAndChangeOnOneLine
   \<and> externalCallIndex callAndChangeOnOneLine = 1
   \<and> stateChangeIndex callAndChangeOnOneLine = 1
   \<and> analyzeFunction callAndChangeOnOneLine 0 [] = []"
  by code_simp


section \<open>The flags set by a body line\<close>

lemma appendLine_hasExternalCall:
  "hasExternalCall (appendLine func ln) = (hasExternalCall func \<or> matchesExternalCall ln)"
  by (simp add: appendLine_def Let_def)

lemma appendLine_hasStateChange:
  "hasStateChange (appendLine func ln) = (hasStateChange func \<or> matchesStateChange ln)"
  by (simp add: appendLine_def Let_def)

lemma assignment_has_equals: "js_includes ln (lit ''= '' @ [c]) \<Longrightarrow> 0x3D \<in> set ln"
proof -
  assume "js_includes ln (lit ''= '' @ [c])"
  then have "set (lit ''= '' @ [c]) \<subseteq> set ln" by (rule js_includes_set)
  then show ?thesis by (simp add: lit_def)
qed

lemma compound_has_equals:
  "js_includes ln (lit ''+='') \<or> js_includes ln (lit ''-='') \<Longrightarrow> 0x3D \<in> set ln"
proof -
  assume "js_includes ln (lit ''+='') \<or> js_includes ln (lit ''-='')"
  then have "set (lit ''+='') \<subseteq> set ln \<or> set (lit ''-='') \<subseteq> set ln"
    using js_includes_set by blast
  then show ?thesis by (auto simp: lit_def)
qed

text \<open>
  C3, as the code has it.  A line appended to the current record sets
  \<open>hasExternalCall\<close> exactly when it matches \<open>/\.(call|send|transfer)\s*[({]/\<close>, that
  is when it holds \<open>.call\<close>, \<open>.send\<close> or \<open>.transfer\<close>, then any white space, then
  \<open>(\<close> or \<open>{\<close>.  It sets \<open>hasStateChange\<close> whenever it holds \<open>+=\<close>, \<open>-=\<close>, or \<open>=\<close>
  followed by a space and a character other than \<open>=\<close>, and it leaves \<open>hasStateChange\<close>
  as it was when it holds none of the characters \<open>+\<close>, \<open>-\<close> and \<open>=\<close>.  The line is
  added to the code after a line feed.
\<close>

theorem appendLine_flags:
  "hasExternalCall (appendLine func ln) = (hasExternalCall func \<or> matchesExternalCall ln)
   \<and> (matchesExternalCall ln \<longleftrightarrow>
        (\<exists>u k w b v. ln = u @ [0x2E] @ lit k @ w @ [b] @ v
           \<and> k \<in> {''call'', ''send'', ''transfer''}
           \<and> (\<forall>c \<in> set w. isWhiteSpace c) \<and> (b = 0x28 \<or> b = 0x7B)))
   \<and> (js_includes ln (lit ''+='') \<or> js_includes ln (lit ''-='')
        \<or> (\<exists>c. c \<noteq> 0x3D \<and> js_includes ln (lit ''= '' @ [c]))
      \<longrightarrow> hasStateChange (appendLine func ln))
   \<and> (0x2B \<notin> set ln \<and> 0x2D \<notin> set ln \<and> 0x3D \<notin> set ln
      \<longrightarrow> hasStateChange (appendLine func ln) = hasStateChange func)
   \<and> code (appendLine func ln) = code func @ [NL] @ ln"
proof (intro conjI impI)
  show "hasExternalCall (appendLine func ln) = (hasExternalCall func \<or> matchesExternalCall ln)"
    by (rule appendLine_hasExternalCall)
  show "matchesExternalCall ln \<longleftrightarrow>
        (\<exists>u k w b v. ln = u @ [0x2E] @ lit k @ w @ [b] @ v
           \<and> k \<in> {''call'', ''send'', ''transfer''}
           \<and> (\<forall>c \<in> set w. isWhiteSpace c) \<and> (b = 0x28 \<or> b = 0x7B))"
    by (rule matchesExternalCall_iff)
  show "code (appendLine func ln) = code func @ [NL] @ ln"
    by (simp add: appendLine_def Let_def)
next
  assume "js_includes ln (lit ''+='') \<or> js_includes ln (lit ''-='')
        \<or> (\<exists>c. c \<noteq> 0x3D \<and> js_includes ln (lit ''= '' @ [c]))"
  then have "0x3D \<in> set ln"
    using compound_has_equals assignment_has_equals by blast
  then show "hasStateChange (appendLine func ln)"
    by (simp add: appendLine_hasStateChange matchesStateChange_iff)
next
  assume "0x2B \<notin> set ln \<and> 0x2D \<notin> set ln \<and> 0x3D \<notin> set ln"
  then show "hasStateChange (appendLine func ln) = hasStateChange func"
    by (simp add: appendLine_hasStateChange matchesStateChange_iff)
qed

theorem appendLine_flags_witness:
  "hasExternalCall (appendLine (newFunction (lit ''function f() {'')) (lit ''to.transfer (n); n -= 1;''))
   \<and> hasStateChange (appendLine (newFunction (lit ''function f() {'')) (lit ''to.transfer (n); n -= 1;''))
   \<and> \<not> hasExternalCall (appendLine (newFunction (lit ''function f() {'')) (lit ''return n;''))
   \<and> \<not> hasStateChange (appendLine (newFunction (lit ''function f() {'')) (lit ''return n;''))"
proof -
  let ?f = "newFunction (lit ''function f() {'')"
  have a: "matchesExternalCall (lit ''to.transfer (n); n -= 1;'')"
    "js_includes (lit ''to.transfer (n); n -= 1;'') (lit ''-='')"
    by code_simp+
  have b: "\<not> matchesExternalCall (lit ''return n;'')"
    "0x2B \<notin> set (lit ''return n;'') \<and> 0x2D \<notin> set (lit ''return n;'') \<and> 0x3D \<notin> set (lit ''return n;'')"
    by code_simp+
  have c: "\<not> hasExternalCall ?f" "\<not> hasStateChange ?f"
    by (simp_all add: newFunction_def Let_def)
  show ?thesis
    using appendLine_flags [of ?f "lit ''to.transfer (n); n -= 1;''"]
      appendLine_flags [of ?f "lit ''return n;''"] a b c
    by blast
qed

text \<open>
  The line \<open>x = y.call(z);\<close> sets both flags although it holds none of the six texts
  \<open>.call{\<close>, \<open>.send(\<close>, \<open>.transfer(\<close>, \<open>balances[\<close>, \<open>+=\<close> and \<open>-=\<close>.
\<close>

theorem appendLine_flags_counterexample:
  "\<not> hasExternalCall (newFunction (lit ''function f() {''))
   \<and> \<not> hasStateChange (newFunction (lit ''function f() {''))
   \<and> hasExternalCall callAndChangeOnOneLine
   \<and> hasStateChange callAndChangeOnOneLine
   \<and> \<not> js_includes (lit ''x = y.call(z);'') (lit ''.call{'')
   \<and> \<not> js_includes (lit ''x = y.call(z);'') (lit ''.send('')
   \<and> \<not> js_includes (lit ''x = y.call(z);'') (lit ''.transfer('')
   \<and> \<not> js_includes (lit ''x = y.call(z);'') (lit ''balances['')
   \<and> \<not> js_includes (lit ''x = y.call(z);'') (lit ''+='')
   \<and> \<not> js_includes (lit ''x = y.call(z);'') (lit ''-='')"
  by code_simp


section \<open>The merge of the rule results\<close>

lemma mergeResult_cases:
  "mergeResult results result =
     (if \<exists>r \<in> set results. similar r result then results else results @ [result])"
  by (simp add: mergeResult_def list_ex_iff)

lemma similar_refl: "similar c c"
  by (simp add: similar_def)

text \<open>The two loops merge the candidates one after the other.\<close>

lemma applyRulesToLine_foldl:
  "applyRulesToLine checks ln index results =
     foldl mergeResult results (ruleResultsOfLine checks ln index)"
proof (induction checks arbitrary: results)
  case Nil
  show ?case by simp
next
  case (Cons check rest)
  show ?case
  proof (cases "check ln (index + 1)")
    case None
    then show ?thesis by (simp add: Cons.IH)
  next
    case (Some result)
    then show ?thesis by (simp add: Cons.IH)
  qed
qed

lemma applyRules_foldl:
  "applyRules lines index results = foldl mergeResult results (ruleResults lines index)"
proof (induction lines arbitrary: index results)
  case Nil
  show ?case by simp
next
  case (Cons ln rest)
  have "applyRules (ln # rest) index results =
      applyRules rest (index + 1) (applyRulesToLine rules ln index results)"
    by simp
  also have "\<dots> = foldl mergeResult (applyRulesToLine rules ln index results)
      (ruleResults rest (index + 1))"
    by (rule Cons.IH)
  also have "\<dots> = foldl mergeResult results
      (ruleResultsOfLine rules ln index @ ruleResults rest (index + 1))"
    by (simp only: applyRulesToLine_foldl foldl_append)
  finally show ?case by simp
qed

text \<open>What merging a list of candidates keeps, adds and leaves out.\<close>

lemma merge_extends: "\<exists>added. foldl mergeResult acc cs = acc @ added"
proof (induction cs arbitrary: acc)
  case Nil
  show ?case by simp
next
  case (Cons c cs)
  obtain x where x: "mergeResult acc c = acc @ x"
    by (cases "\<exists>r \<in> set acc. similar r c") (auto simp: mergeResult_cases)
  obtain added where "foldl mergeResult (mergeResult acc c) cs = mergeResult acc c @ added"
    using Cons.IH by blast
  then have "foldl mergeResult acc (c # cs) = acc @ (x @ added)"
    by (simp add: x)
  then show ?case by blast
qed

lemma merge_prefix: "take (length acc) (foldl mergeResult acc cs) = acc"
proof -
  obtain added where "foldl mergeResult acc cs = acc @ added"
    using merge_extends by blast
  then show ?thesis by simp
qed

lemma merge_keeps: "f \<in> set acc \<Longrightarrow> f \<in> set (foldl mergeResult acc cs)"
proof -
  assume f: "f \<in> set acc"
  obtain added where "foldl mergeResult acc cs = acc @ added"
    using merge_extends by blast
  with f show ?thesis by simp
qed

lemma merge_covers:
  "c \<in> set cs \<Longrightarrow> \<exists>r \<in> set (foldl mergeResult acc cs). similar r c"
proof (induction cs arbitrary: acc)
  case Nil
  then show ?case by simp
next
  case (Cons d cs)
  show ?case
  proof (cases "c = d")
    case True
    have "\<exists>r \<in> set (mergeResult acc c). similar r c"
      by (cases "\<exists>r \<in> set acc. similar r c") (auto simp: mergeResult_cases similar_refl)
    then obtain r where r: "r \<in> set (mergeResult acc c)" and s: "similar r c"
      by blast
    from r have "r \<in> set (foldl mergeResult (mergeResult acc c) cs)"
      by (rule merge_keeps)
    with s True show ?thesis by auto
  next
    case False
    with Cons.prems have "c \<in> set cs" by simp
    then have "\<exists>r \<in> set (foldl mergeResult (mergeResult acc d) cs). similar r c"
      by (rule Cons.IH)
    then show ?thesis by simp
  qed
qed

lemma mergeResult_fresh:
  assumes "\<forall>j. n \<le> j \<and> j < length acc \<longrightarrow> \<not> (\<exists>i<j. similar (acc ! i) (acc ! j))"
  shows "\<forall>j. n \<le> j \<and> j < length (mergeResult acc c) \<longrightarrow>
           \<not> (\<exists>i<j. similar (mergeResult acc c ! i) (mergeResult acc c ! j))"
proof (cases "\<exists>r \<in> set acc. similar r c")
  case True
  then have "mergeResult acc c = acc"
    by (simp add: mergeResult_cases)
  with assms show ?thesis by simp
next
  case False
  then have m: "mergeResult acc c = acc @ [c]"
    by (simp add: mergeResult_cases)
  show ?thesis
  proof (intro allI impI)
    fix j
    assume j: "n \<le> j \<and> j < length (mergeResult acc c)"
    show "\<not> (\<exists>i<j. similar (mergeResult acc c ! i) (mergeResult acc c ! j))"
    proof (cases "j < length acc")
      case True
      then have "\<And>i. i < j \<Longrightarrow> (acc @ [c]) ! i = acc ! i" and "(acc @ [c]) ! j = acc ! j"
        by (simp_all add: nth_append)
      moreover from assms j True have "\<not> (\<exists>i<j. similar (acc ! i) (acc ! j))"
        by blast
      ultimately show ?thesis
        unfolding m by metis
    next
      case False
      with j have jl: "j = length acc"
        by (simp add: m)
      show ?thesis
      proof
        assume "\<exists>i<j. similar (mergeResult acc c ! i) (mergeResult acc c ! j)"
        then obtain i where i: "i < length acc" and s: "similar ((acc @ [c]) ! i) ((acc @ [c]) ! length acc)"
          unfolding m jl by blast
        from i have "(acc @ [c]) ! i = acc ! i" and "acc ! i \<in> set acc"
          by (simp_all add: nth_append)
        with s have "\<exists>r \<in> set acc. similar r c"
          by auto
        with \<open>\<not> (\<exists>r \<in> set acc. similar r c)\<close> show False by blast
      qed
    qed
  qed
qed

lemma merge_fresh:
  "\<forall>j. n \<le> j \<and> j < length acc \<longrightarrow> \<not> (\<exists>i<j. similar (acc ! i) (acc ! j)) \<Longrightarrow>
   \<forall>j. n \<le> j \<and> j < length (foldl mergeResult acc cs) \<longrightarrow>
     \<not> (\<exists>i<j. similar (foldl mergeResult acc cs ! i) (foldl mergeResult acc cs ! j))"
proof (induction cs arbitrary: acc)
  case Nil
  then show ?case by simp
next
  case (Cons c cs)
  have "\<forall>j. n \<le> j \<and> j < length (mergeResult acc c) \<longrightarrow>
           \<not> (\<exists>i<j. similar (mergeResult acc c ! i) (mergeResult acc c ! j))"
    using Cons.prems by (rule mergeResult_fresh)
  then have "\<forall>j. n \<le> j \<and> j < length (foldl mergeResult (mergeResult acc c) cs) \<longrightarrow>
     \<not> (\<exists>i<j. similar (foldl mergeResult (mergeResult acc c) cs ! i)
                    (foldl mergeResult (mergeResult acc c) cs ! j))"
    by (rule Cons.IH)
  then show ?case
    by (simp only: foldl_Cons)
qed

lemma merge_similar:
  "f \<in> set acc \<Longrightarrow> filter (similar f) (foldl mergeResult acc cs) = filter (similar f) acc"
proof (induction cs arbitrary: acc)
  case Nil
  show ?case by simp
next
  case (Cons c cs)
  have k: "f \<in> set (mergeResult acc c)"
    using Cons.prems by (simp add: mergeResult_cases)
  have "filter (similar f) (foldl mergeResult (mergeResult acc c) cs)
      = filter (similar f) (mergeResult acc c)"
    using k by (rule Cons.IH)
  also have "\<dots> = filter (similar f) acc"
    using Cons.prems by (auto simp: mergeResult_cases)
  finally show ?case by simp
qed

lemma reportedTwice_result:
  "analyzeContractSimple reportedTwice =
     [reentrancyFinding 2,
      \<lparr>severity = Medium, message = ''Unchecked send/transfer detected'',
       line = 3, column = 1, rule = ''unchecked-send'',
       description = ''Unchecked return value from send/transfer call.'',
       recommendation = ''Always check the return value of send/transfer calls.''\<rparr>]"
  by code_simp

text \<open>
  C4.  The merge handles the rule results in the order of the lines and, within a
  line, of the catalog: the final sequence is the given one after each result has been
  merged in turn.  The result number \<open>k\<close> is left out if and only if the sequence as
  it stands when the result is reached, which holds the findings from before the merge
  and the results kept so far, already holds a finding of the same rule whose line is at
  most two lines away; otherwise it is appended.  Consequently every rule result has a
  finding of its rule within two lines in the final sequence; no finding that the merge
  appended has a finding of its rule within two lines before it; the sequence from
  before the merge is kept as the beginning; and for a finding that is in the sequence
  before the merge, such as the reentrancy finding of the function analyzer, the
  findings of its rule within two lines of it are the same after the merge as before, so
  an instance reported by the function analyzer is not reported a second time by the
  line rule.
\<close>

theorem merge_deduplicates:
  "applyRules lines index results = foldl mergeResult results (ruleResults lines index)
   \<and> (\<forall>k < length (ruleResults lines index).
        foldl mergeResult results (take (Suc k) (ruleResults lines index)) =
          (if \<exists>r \<in> set (foldl mergeResult results (take k (ruleResults lines index))).
                rule r = rule (ruleResults lines index ! k)
                \<and> \<bar>line r - line (ruleResults lines index ! k)\<bar> \<le> 2
           then foldl mergeResult results (take k (ruleResults lines index))
           else foldl mergeResult results (take k (ruleResults lines index))
                  @ [ruleResults lines index ! k]))
   \<and> (\<forall>c \<in> set (ruleResults lines index).
        \<exists>r \<in> set (applyRules lines index results).
          rule r = rule c \<and> \<bar>line r - line c\<bar> \<le> 2)
   \<and> (\<forall>j. length results \<le> j \<and> j < length (applyRules lines index results) \<longrightarrow>
        \<not> (\<exists>i<j. rule (applyRules lines index results ! i) = rule (applyRules lines index results ! j)
               \<and> \<bar>line (applyRules lines index results ! i)
                    - line (applyRules lines index results ! j)\<bar> \<le> 2))
   \<and> take (length results) (applyRules lines index results) = results
   \<and> (f \<in> set results \<longrightarrow>
        filter (\<lambda>g. rule f = rule g \<and> \<bar>line f - line g\<bar> \<le> 2) (applyRules lines index results)
          = filter (\<lambda>g. rule f = rule g \<and> \<bar>line f - line g\<bar> \<le> 2) results)
   \<and> mergeResult results result =
        (if \<exists>r \<in> set results. rule r = rule result \<and> \<bar>line r - line result\<bar> \<le> 2
         then results else results @ [result])"
proof (intro conjI)
  let ?cs = "ruleResults lines index"
  let ?out = "applyRules lines index results"
  show loop: "?out = foldl mergeResult results ?cs"
    by (rule applyRules_foldl)
  show "\<forall>k < length ?cs.
        foldl mergeResult results (take (Suc k) ?cs) =
          (if \<exists>r \<in> set (foldl mergeResult results (take k ?cs)).
                rule r = rule (?cs ! k) \<and> \<bar>line r - line (?cs ! k)\<bar> \<le> 2
           then foldl mergeResult results (take k ?cs)
           else foldl mergeResult results (take k ?cs) @ [?cs ! k])"
  proof (intro allI impI)
    fix k
    assume "k < length ?cs"
    then have "take (Suc k) ?cs = take k ?cs @ [?cs ! k]"
      by (rule take_Suc_conv_app_nth)
    then have "foldl mergeResult results (take (Suc k) ?cs) =
        mergeResult (foldl mergeResult results (take k ?cs)) (?cs ! k)"
      by simp
    then show "foldl mergeResult results (take (Suc k) ?cs) =
          (if \<exists>r \<in> set (foldl mergeResult results (take k ?cs)).
                rule r = rule (?cs ! k) \<and> \<bar>line r - line (?cs ! k)\<bar> \<le> 2
           then foldl mergeResult results (take k ?cs)
           else foldl mergeResult results (take k ?cs) @ [?cs ! k])"
      by (simp only: mergeResult_cases similar_def)
  qed
  show "\<forall>c \<in> set ?cs. \<exists>r \<in> set ?out. rule r = rule c \<and> \<bar>line r - line c\<bar> \<le> 2"
  proof
    fix c
    assume "c \<in> set ?cs"
    then have "\<exists>r \<in> set (foldl mergeResult results ?cs). similar r c"
      by (rule merge_covers)
    then show "\<exists>r \<in> set ?out. rule r = rule c \<and> \<bar>line r - line c\<bar> \<le> 2"
      by (simp only: loop similar_def)
  qed
  have "\<forall>j. length results \<le> j \<and> j < length results \<longrightarrow>
      \<not> (\<exists>i<j. similar (results ! i) (results ! j))"
    by auto
  then have "\<forall>j. length results \<le> j \<and> j < length (foldl mergeResult results ?cs) \<longrightarrow>
     \<not> (\<exists>i<j. similar (foldl mergeResult results ?cs ! i) (foldl mergeResult results ?cs ! j))"
    by (rule merge_fresh)
  then show "\<forall>j. length results \<le> j \<and> j < length ?out \<longrightarrow>
        \<not> (\<exists>i<j. rule (?out ! i) = rule (?out ! j) \<and> \<bar>line (?out ! i) - line (?out ! j)\<bar> \<le> 2)"
    by (simp only: loop similar_def)
  show "take (length results) ?out = results"
    by (simp only: loop merge_prefix)
  show "f \<in> set results \<longrightarrow>
        filter (\<lambda>g. rule f = rule g \<and> \<bar>line f - line g\<bar> \<le> 2) ?out
          = filter (\<lambda>g. rule f = rule g \<and> \<bar>line f - line g\<bar> \<le> 2) results"
  proof
    assume "f \<in> set results"
    then have "filter (similar f) (foldl mergeResult results ?cs) = filter (similar f) results"
      by (rule merge_similar)
    moreover have "similar f = (\<lambda>g. rule f = rule g \<and> \<bar>line f - line g\<bar> \<le> 2)"
      by (simp add: similar_def fun_eq_iff)
    ultimately show "filter (\<lambda>g. rule f = rule g \<and> \<bar>line f - line g\<bar> \<le> 2) ?out
          = filter (\<lambda>g. rule f = rule g \<and> \<bar>line f - line g\<bar> \<le> 2) results"
      by (simp only: loop)
  qed
  show "mergeResult results result =
        (if \<exists>r \<in> set results. rule r = rule result \<and> \<bar>line r - line result\<bar> \<le> 2
         then results else results @ [result])"
    by (simp only: mergeResult_cases similar_def)
qed

theorem merge_deduplicates_witness:
  "ruleResults [lit ''contract C {'', lit ''function pay() {'', lit ''a.send(balances[b]);'',
       lit ''c -= 1;'', lit ''}''] 0
     = [\<lparr>severity = High, message = ''Potential reentrancy vulnerability detected'',
         line = 3, column = 1, rule = ''reentrancy'',
         description = ''The contract may be vulnerable to reentrancy attacks. State changes are made after external calls.'',
         recommendation = ''Consider using the Checks-Effects-Interactions pattern or a reentrancy guard.''\<rparr>,
        \<lparr>severity = Medium, message = ''Unchecked send/transfer detected'',
         line = 3, column = 1, rule = ''unchecked-send'',
         description = ''Unchecked return value from send/transfer call.'',
         recommendation = ''Always check the return value of send/transfer calls.''\<rparr>]
   \<and> applyRules [lit ''contract C {'', lit ''function pay() {'', lit ''a.send(balances[b]);'',
       lit ''c -= 1;'', lit ''}''] 0 [reentrancyFinding 2]
     = [reentrancyFinding 2,
        \<lparr>severity = Medium, message = ''Unchecked send/transfer detected'',
         line = 3, column = 1, rule = ''unchecked-send'',
         description = ''Unchecked return value from send/transfer call.'',
         recommendation = ''Always check the return value of send/transfer calls.''\<rparr>]
   \<and> list_ex (\<lambda>r. rule r = ''reentrancy'' \<and> \<bar>line r - 3\<bar> \<le> 2)
       (applyRules [lit ''contract C {'', lit ''function pay() {'', lit ''a.send(balances[b]);'',
          lit ''c -= 1;'', lit ''}''] 0 [reentrancyFinding 2])
   \<and> ruleResults [lit ''a = tx.origin;'', lit ''b = tx.origin;''] 0
     = [\<lparr>severity = High, message = ''Use of tx.origin detected'',
         line = 1, column = 1, rule = ''tx-origin'',
         description = ''Use of tx.origin for authentication is vulnerable to phishing attacks.'',
         recommendation = ''Use msg.sender instead of tx.origin for authentication.''\<rparr>,
        \<lparr>severity = High, message = ''Use of tx.origin detected'',
         line = 2, column = 1, rule = ''tx-origin'',
         description = ''Use of tx.origin for authentication is vulnerable to phishing attacks.'',
         recommendation = ''Use msg.sender instead of tx.origin for authentication.''\<rparr>]
   \<and> applyRules [lit ''a = tx.origin;'', lit ''b = tx.origin;''] 0 []
     = [\<lparr>severity = High, message = ''Use of tx.origin detected'',
         line = 1, column = 1, rule = ''tx-origin'',
         description = ''Use of tx.origin for authentication is vulnerable to phishing attacks.'',
         recommendation = ''Use msg.sender instead of tx.origin for authentication.''\<rparr>]
   \<and> filter (\<lambda>g. rule g = ''reentrancy'') (analyzeContractSimple reportedTwice) = [reentrancyFinding 2]"
proof -
  let ?L = "[lit ''contract C {'', lit ''function pay() {'', lit ''a.send(balances[b]);'',
       lit ''c -= 1;'', lit ''}'']"
  let ?T = "[lit ''a = tx.origin;'', lit ''b = tx.origin;'']"
  let ?c1 = "\<lparr>severity = High, message = ''Potential reentrancy vulnerability detected'',
         line = 3, column = 1, rule = ''reentrancy'',
         description = ''The contract may be vulnerable to reentrancy attacks. State changes are made after external calls.'',
         recommendation = ''Consider using the Checks-Effects-Interactions pattern or a reentrancy guard.''\<rparr>"
  let ?c2 = "\<lparr>severity = Medium, message = ''Unchecked send/transfer detected'',
         line = 3, column = 1, rule = ''unchecked-send'',
         description = ''Unchecked return value from send/transfer call.'',
         recommendation = ''Always check the return value of send/transfer calls.''\<rparr>"
  let ?t1 = "\<lparr>severity = High, message = ''Use of tx.origin detected'',
         line = 1, column = 1, rule = ''tx-origin'',
         description = ''Use of tx.origin for authentication is vulnerable to phishing attacks.'',
         recommendation = ''Use msg.sender instead of tx.origin for authentication.''\<rparr>"
  let ?t2 = "\<lparr>severity = High, message = ''Use of tx.origin detected'',
         line = 2, column = 1, rule = ''tx-origin'',
         description = ''Use of tx.origin for authentication is vulnerable to phishing attacks.'',
         recommendation = ''Use msg.sender instead of tx.origin for authentication.''\<rparr>"
  have a: "ruleResults ?L 0 = [?c1, ?c2]"
    by code_simp
  have b: "ruleResults ?T 0 = [?t1, ?t2]"
    by code_simp
  have m1: "foldl mergeResult [reentrancyFinding 2] [?c1, ?c2] = [reentrancyFinding 2, ?c2]"
    by (simp add: mergeResult_def similar_def reentrancyFinding_def)
  have m2: "foldl mergeResult [] [?t1, ?t2] = [?t1]"
    by (simp add: mergeResult_def similar_def)
  note l = merge_deduplicates [of ?L 0 "[reentrancyFinding 2]" "reentrancyFinding 2" ?c1]
  note t = merge_deduplicates [of ?T 0 "[]" ?t1 ?t2]
  from l have "applyRules ?L 0 [reentrancyFinding 2]
      = foldl mergeResult [reentrancyFinding 2] (ruleResults ?L 0)"
    by (rule conjunct1)
  then have c: "applyRules ?L 0 [reentrancyFinding 2] = [reentrancyFinding 2, ?c2]"
    by (simp only: a m1)
  from t have "applyRules ?T 0 [] = foldl mergeResult [] (ruleResults ?T 0)"
    by (rule conjunct1)
  then have d: "applyRules ?T 0 [] = [?t1]"
    by (simp only: b m2)
  from l have "\<forall>c \<in> set (ruleResults ?L 0).
        \<exists>r \<in> set (applyRules ?L 0 [reentrancyFinding 2]).
          rule r = rule c \<and> \<bar>line r - line c\<bar> \<le> 2"
    by (rule conjunct2 [THEN conjunct2, THEN conjunct1])
  moreover have "?c1 \<in> set (ruleResults ?L 0)"
    by (simp only: a) simp
  ultimately have "\<exists>r \<in> set (applyRules ?L 0 [reentrancyFinding 2]).
      rule r = rule ?c1 \<and> \<bar>line r - line ?c1\<bar> \<le> 2"
    by blast
  then have e: "list_ex (\<lambda>r. rule r = ''reentrancy'' \<and> \<bar>line r - 3\<bar> \<le> 2)
       (applyRules ?L 0 [reentrancyFinding 2])"
    by (simp add: list_ex_iff)
  have f: "filter (\<lambda>g. rule g = ''reentrancy'') (analyzeContractSimple reportedTwice) = [reentrancyFinding 2]"
    by (simp only: reportedTwice_result) (simp add: reentrancyFinding_def)
  from a b c d e f show ?thesis
    by blast
qed

section \<open>The findings of the contract analysis\<close>

text \<open>No finding of the contract analysis is informational or the "No issues found" entry.\<close>

lemma rules_substantive:
  assumes "check \<in> set rules" and "check ln n = Some f"
  shows "severity f \<noteq> Info \<and> rule f \<noteq> ''analysis-complete''"
proof -
  from assms(1) consider "check = check_reentrancy" | "check = check_tx_origin"
    | "check = check_timestamp_dependence" | "check = check_hardcoded_address"
    | "check = check_unchecked_send" | "check = check_delegatecall_usage"
    | "check = check_selfdestruct_usage" | "check = check_suicide_usage"
    | "check = check_throw_usage" | "check = check_gas_limit"
    by (auto simp: rules_def)
  then show ?thesis
  proof cases
    case 1 with assms(2) show ?thesis
      by (auto simp: check_reentrancy_def Let_def split: if_splits)
  next
    case 2 with assms(2) show ?thesis
      by (auto simp: check_tx_origin_def split: if_splits)
  next
    case 3 with assms(2) show ?thesis
      by (auto simp: check_timestamp_dependence_def split: if_splits)
  next
    case 4 with assms(2) show ?thesis
      by (auto simp: check_hardcoded_address_def split: if_splits)
  next
    case 5 with assms(2) show ?thesis
      by (auto simp: check_unchecked_send_def Let_def split: if_splits)
  next
    case 6 with assms(2) show ?thesis
      by (auto simp: check_delegatecall_usage_def split: if_splits)
  next
    case 7 with assms(2) show ?thesis
      by (auto simp: check_selfdestruct_usage_def split: if_splits)
  next
    case 8 with assms(2) show ?thesis
      by (auto simp: check_suicide_usage_def split: if_splits)
  next
    case 9 with assms(2) show ?thesis
      by (auto simp: check_throw_usage_def split: if_splits)
  next
    case 10 with assms(2) show ?thesis
      by (auto simp: check_gas_limit_def Let_def split: if_splits)
  qed
qed

lemma checkVisibility_substantive:
  "f \<in> set (checkVisibility func startLine) \<Longrightarrow> severity f \<noteq> Info \<and> rule f \<noteq> ''analysis-complete''"
  by (auto simp: checkVisibility_def visibilityFinding_def split: if_splits)

lemma checkPayable_substantive:
  "f \<in> set (checkPayable func startLine) \<Longrightarrow> severity f \<noteq> Info \<and> rule f \<noteq> ''analysis-complete''"
  by (auto simp: checkPayable_def payableFinding_def Let_def split: if_splits)

lemma checkReentrancy_substantive:
  "f \<in> set (checkReentrancy func startLine) \<Longrightarrow> severity f \<noteq> Info \<and> rule f \<noteq> ''analysis-complete''"
  by (auto simp: checkReentrancy_def reentrancyFinding_def split: if_splits)

lemma checkUnprotected_substantive:
  "f \<in> set (checkUnprotected func startLine) \<Longrightarrow> severity f \<noteq> Info \<and> rule f \<noteq> ''analysis-complete''"
  by (auto simp: checkUnprotected_def unprotectedInitFinding_def unprotectedUpgradeFinding_def
      unprotectedWithdrawFinding_def unprotectedSelfdestructFinding_def Let_def split: if_splits)

lemma analyzeFunction_substantive:
  assumes "\<forall>f \<in> set results. severity f \<noteq> Info \<and> rule f \<noteq> ''analysis-complete''"
  shows "\<forall>f \<in> set (analyzeFunction func startLine results).
           severity f \<noteq> Info \<and> rule f \<noteq> ''analysis-complete''"
  using assms checkVisibility_substantive checkPayable_substantive checkReentrancy_substantive
    checkUnprotected_substantive
  unfolding analyzeFunction_def set_append by blast

lemma checkStateVariables_substantive:
  "\<forall>f \<in> set results. severity f \<noteq> Info \<and> rule f \<noteq> ''analysis-complete'' \<Longrightarrow>
   \<forall>f \<in> set (checkStateVariables contractLine index lines results).
     severity f \<noteq> Info \<and> rule f \<noteq> ''analysis-complete''"
proof (induction lines arbitrary: index results)
  case Nil
  then show ?case by simp
next
  case (Cons ln rest)
  let ?pushed = "if js_includes ln (lit ''public'') \<and> \<not> js_includes ln (lit ''constant'')
           \<and> \<not> js_includes ln (lit ''immutable'')
        then results @ [stateVisibilityFinding (contractLine + index + 2)]
        else results"
  have "\<forall>f \<in> set ?pushed. severity f \<noteq> Info \<and> rule f \<noteq> ''analysis-complete''"
    using Cons.prems by (simp add: stateVisibilityFinding_def)
  then have "\<forall>f \<in> set (checkStateVariables contractLine (index + 1) rest ?pushed).
      severity f \<noteq> Info \<and> rule f \<noteq> ''analysis-complete''"
    by (rule Cons.IH)
  then show ?case
    by (simp only: checkStateVariables.simps)
qed

lemma scanLines_substantive:
  "\<forall>f \<in> set results. severity f \<noteq> Info \<and> rule f \<noteq> ''analysis-complete'' \<Longrightarrow>
   \<forall>f \<in> set (snd (snd (scanLines lines i currentFunction functionStartLine results))).
     severity f \<noteq> Info \<and> rule f \<noteq> ''analysis-complete''"
proof (induction lines arbitrary: i currentFunction functionStartLine results)
  case Nil
  then show ?case by simp
next
  case (Cons ln rest)
  show ?case
  proof (cases "startsWith ln (lit ''function'')")
    case True
    let ?closed = "case currentFunction of
             Some func \<Rightarrow> analyzeFunction func functionStartLine results
           | None \<Rightarrow> results"
    have "\<forall>f \<in> set ?closed. severity f \<noteq> Info \<and> rule f \<noteq> ''analysis-complete''"
    proof (cases currentFunction)
      case None
      with Cons.prems show ?thesis by simp
    next
      case (Some func)
      with analyzeFunction_substantive [OF Cons.prems] show ?thesis by simp
    qed
    then have "\<forall>f \<in> set (snd (snd (scanLines rest (i + 1) (Some (newFunction ln)) i ?closed))).
        severity f \<noteq> Info \<and> rule f \<noteq> ''analysis-complete''"
      by (rule Cons.IH)
    with True show ?thesis
      by (simp only: scanLines.simps if_True)
  next
    case False
    show ?thesis
    proof (cases currentFunction)
      case None
      have "\<forall>f \<in> set (snd (snd (scanLines rest (i + 1) None functionStartLine results))).
          severity f \<noteq> Info \<and> rule f \<noteq> ''analysis-complete''"
        using Cons.prems by (rule Cons.IH)
      with False None show ?thesis
        by (simp only: scanLines.simps if_False option.case)
    next
      case (Some func)
      have "\<forall>f \<in> set (snd (snd (scanLines rest (i + 1) (Some (appendLine func ln))
            functionStartLine results))).
          severity f \<noteq> Info \<and> rule f \<noteq> ''analysis-complete''"
        using Cons.prems by (rule Cons.IH)
      with False Some show ?thesis
        by (simp only: scanLines.simps if_False option.case)
    qed
  qed
qed

lemma mergeResult_substantive:
  "\<forall>f \<in> set results. severity f \<noteq> Info \<and> rule f \<noteq> ''analysis-complete'' \<Longrightarrow>
   severity result \<noteq> Info \<and> rule result \<noteq> ''analysis-complete'' \<Longrightarrow>
   \<forall>f \<in> set (mergeResult results result). severity f \<noteq> Info \<and> rule f \<noteq> ''analysis-complete''"
  unfolding mergeResult_def by (cases "list_ex (\<lambda>r. similar r result) results") auto

lemma applyRulesToLine_substantive:
  "set checks \<subseteq> set rules \<Longrightarrow>
   \<forall>f \<in> set results. severity f \<noteq> Info \<and> rule f \<noteq> ''analysis-complete'' \<Longrightarrow>
   \<forall>f \<in> set (applyRulesToLine checks ln index results).
     severity f \<noteq> Info \<and> rule f \<noteq> ''analysis-complete''"
proof (induction checks arbitrary: results)
  case Nil
  then show ?case by simp
next
  case (Cons check rest)
  have rest: "set rest \<subseteq> set rules" and check: "check \<in> set rules"
    using Cons.prems(1) by auto
  show ?case
  proof (cases "check ln (index + 1)")
    case None
    have "\<forall>f \<in> set (applyRulesToLine rest ln index results).
        severity f \<noteq> Info \<and> rule f \<noteq> ''analysis-complete''"
      using rest Cons.prems(2) by (rule Cons.IH)
    with None show ?thesis
      by (simp only: applyRulesToLine.simps option.case)
  next
    case (Some result)
    have "\<forall>f \<in> set (mergeResult results result). severity f \<noteq> Info \<and> rule f \<noteq> ''analysis-complete''"
      using Cons.prems(2) rules_substantive [OF check Some] by (rule mergeResult_substantive)
    with rest have "\<forall>f \<in> set (applyRulesToLine rest ln index (mergeResult results result)).
        severity f \<noteq> Info \<and> rule f \<noteq> ''analysis-complete''"
      by (rule Cons.IH)
    with Some show ?thesis
      by (simp only: applyRulesToLine.simps option.case)
  qed
qed

lemma applyRules_substantive:
  "\<forall>f \<in> set results. severity f \<noteq> Info \<and> rule f \<noteq> ''analysis-complete'' \<Longrightarrow>
   \<forall>f \<in> set (applyRules lines index results). severity f \<noteq> Info \<and> rule f \<noteq> ''analysis-complete''"
proof (induction lines arbitrary: index results)
  case Nil
  then show ?case by simp
next
  case (Cons ln rest)
  have "\<forall>f \<in> set (applyRulesToLine rules ln index results).
      severity f \<noteq> Info \<and> rule f \<noteq> ''analysis-complete''"
    using subset_refl Cons.prems by (rule applyRulesToLine_substantive)
  then have "\<forall>f \<in> set (applyRules rest (index + 1) (applyRulesToLine rules ln index results)).
      severity f \<noteq> Info \<and> rule f \<noteq> ''analysis-complete''"
    by (rule Cons.IH)
  then show ?case
    by (simp only: applyRules.simps)
qed

lemma analyzeContractSimple_unfold:
  "analyzeContractSimple source =
     (if findContractLine (trimmedLines source) = -1 then [syntaxFinding]
      else applyRules (trimmedLines source) 0
        (case fst (scanLines (trimmedLines source) 0 None 0
                 (checkStateVariables (findContractLine (trimmedLines source)) 0
                    (js_slice (trimmedLines source) (findContractLine (trimmedLines source) + 1)
                       (findFirstFunctionLine (findContractLine (trimmedLines source))
                          (trimmedLines source))) [])) of
           Some func \<Rightarrow>
             analyzeFunction func
               (fst (snd (scanLines (trimmedLines source) 0 None 0
                 (checkStateVariables (findContractLine (trimmedLines source)) 0
                    (js_slice (trimmedLines source) (findContractLine (trimmedLines source) + 1)
                       (findFirstFunctionLine (findContractLine (trimmedLines source))
                          (trimmedLines source))) []))))
               (snd (snd (scanLines (trimmedLines source) 0 None 0
                 (checkStateVariables (findContractLine (trimmedLines source)) 0
                    (js_slice (trimmedLines source) (findContractLine (trimmedLines source) + 1)
                       (findFirstFunctionLine (findContractLine (trimmedLines source))
                          (trimmedLines source))) []))))
         | None \<Rightarrow>
             snd (snd (scanLines (trimmedLines source) 0 None 0
                 (checkStateVariables (findContractLine (trimmedLines source)) 0
                    (js_slice (trimmedLines source) (findContractLine (trimmedLines source) + 1)
                       (findFirstFunctionLine (findContractLine (trimmedLines source))
                          (trimmedLines source))) [])))))"
  unfolding analyzeContractSimple_def Let_def case_prod_beta by (rule refl)

lemma analyzeContractSimple_substantive:
  "\<forall>f \<in> set (analyzeContractSimple source). severity f \<noteq> Info \<and> rule f \<noteq> ''analysis-complete''"
proof (cases "findContractLine (trimmedLines source) = -1")
  case True
  have "analyzeContractSimple source = [syntaxFinding]"
    by (subst analyzeContractSimple_unfold) (rule if_P [OF True])
  then show ?thesis
    by (simp add: syntaxFinding_def)
next
  case False
  define lines where "lines = trimmedLines source"
  define r1 where "r1 = checkStateVariables (findContractLine lines) 0
      (js_slice lines (findContractLine lines + 1)
         (findFirstFunctionLine (findContractLine lines) lines)) []"
  define s where "s = scanLines lines 0 None 0 r1"
  define r3 where "r3 = (case fst s of
      Some func \<Rightarrow> analyzeFunction func (fst (snd s)) (snd (snd s))
    | None \<Rightarrow> snd (snd s))"
  have "\<forall>f \<in> set ([]::finding list). severity f \<noteq> Info \<and> rule f \<noteq> ''analysis-complete''"
    by simp
  then have "\<forall>f \<in> set r1. severity f \<noteq> Info \<and> rule f \<noteq> ''analysis-complete''"
    unfolding r1_def by (rule checkStateVariables_substantive)
  then have 2: "\<forall>f \<in> set (snd (snd s)). severity f \<noteq> Info \<and> rule f \<noteq> ''analysis-complete''"
    unfolding s_def by (rule scanLines_substantive)
  have 3: "\<forall>f \<in> set r3. severity f \<noteq> Info \<and> rule f \<noteq> ''analysis-complete''"
  proof (cases "fst s")
    case None
    then have "r3 = snd (snd s)" by (simp add: r3_def)
    with 2 show ?thesis by simp
  next
    case (Some func)
    then have "r3 = analyzeFunction func (fst (snd s)) (snd (snd s))"
      by (simp add: r3_def)
    with analyzeFunction_substantive [OF 2] show ?thesis by simp
  qed
  have "analyzeContractSimple source = applyRules lines 0 r3"
    unfolding r3_def s_def r1_def lines_def
    by (subst analyzeContractSimple_unfold) (rule if_not_P [OF False])
  moreover have "\<forall>f \<in> set (applyRules lines 0 r3).
      severity f \<noteq> Info \<and> rule f \<noteq> ''analysis-complete''"
    using 3 by (rule applyRules_substantive)
  ultimately show ?thesis by simp
qed

lemma finalize_substantive:
  assumes "\<forall>f \<in> set results. severity f \<noteq> Info \<and> rule f \<noteq> ''analysis-complete''"
  shows "finalize results = (if results = [] then [analysisCompleteFinding] else results)"
proof (cases results)
  case Nil
  then show ?thesis by (simp add: finalize_def)
next
  case (Cons r rs)
  with assms have "severity r \<noteq> Info" by simp
  with Cons show ?thesis by (simp add: finalize_def)
qed

lemma analyzeContract_unfold:
  "analyzeContract store sourceCode =
     (if sourceCode = [] then [inputValidationFinding]
      else case store of
             Completes \<Rightarrow> finalize (analyzeContractSimple (preprocessSolidityCode sourceCode))
           | Throws \<Rightarrow> [internalErrorFinding])"
  unfolding analyzeContract_def Let_def by (rule refl)

lemma analyzeContract_empty: "analyzeContract store [] = [inputValidationFinding]"
  by (subst analyzeContract_unfold) simp

lemma analyzeContract_throws:
  "sourceCode \<noteq> [] \<Longrightarrow> analyzeContract Throws sourceCode = [internalErrorFinding]"
  by (subst analyzeContract_unfold) simp

lemma analyzeContract_completes:
  "sourceCode \<noteq> [] \<Longrightarrow>
   analyzeContract Completes sourceCode =
     finalize (analyzeContractSimple (preprocessSolidityCode sourceCode))"
  by (subst analyzeContract_unfold) simp

lemma analyzeContract_cases:
  "analyzeContract store sourceCode = [inputValidationFinding]
   \<or> analyzeContract store sourceCode = [internalErrorFinding]
   \<or> analyzeContract store sourceCode = [analysisCompleteFinding]
   \<or> (\<forall>f \<in> set (analyzeContract store sourceCode).
        severity f \<noteq> Info \<and> rule f \<noteq> ''analysis-complete'')"
proof (cases "sourceCode = []")
  case True
  then show ?thesis
    using analyzeContract_empty by blast
next
  case False
  show ?thesis
  proof (cases store)
    case Throws
    with False show ?thesis
      using analyzeContract_throws by blast
  next
    case Completes
    define acc where "acc = analyzeContractSimple (preprocessSolidityCode sourceCode)"
    have acc: "\<forall>f \<in> set acc. severity f \<noteq> Info \<and> rule f \<noteq> ''analysis-complete''"
      unfolding acc_def by (rule analyzeContractSimple_substantive)
    have r: "analyzeContract store sourceCode = finalize acc"
      unfolding acc_def Completes using False by (rule analyzeContract_completes)
    show ?thesis
    proof (cases "acc = []")
      case True
      with r acc have "analyzeContract store sourceCode = [analysisCompleteFinding]"
        by (simp add: finalize_substantive)
      then show ?thesis by blast
    next
      case False
      with r acc have "analyzeContract store sourceCode = acc"
        by (simp add: finalize_substantive)
      with acc show ?thesis by simp
    qed
  qed
qed


text \<open>
  C2.  Whenever the result of \<open>analyzeContract\<close> holds an entry of the rule
  \<open>analysis-complete\<close>, the result is that single informational entry, so the entry
  never stands beside a finding of another severity.  For a non-empty source whose
  results are stored without an exception, the result is that single entry when the
  accumulated findings are empty or all informational, and the accumulated findings
  themselves, unchanged and in their order, otherwise.
\<close>

theorem sentinel_alone:
  "((\<exists>f \<in> set (analyzeContract store sourceCode). rule f = ''analysis-complete'')
      \<longrightarrow> analyzeContract store sourceCode = [analysisCompleteFinding]
          \<and> (\<forall>g \<in> set (analyzeContract store sourceCode). severity g = Info))
   \<and> (sourceCode \<noteq> [] \<longrightarrow>
        analyzeContract Completes sourceCode =
          (if analyzeContractSimple (preprocessSolidityCode sourceCode) = []
              \<or> (\<forall>r \<in> set (analyzeContractSimple (preprocessSolidityCode sourceCode)).
                    severity r = Info)
           then [analysisCompleteFinding]
           else analyzeContractSimple (preprocessSolidityCode sourceCode)))"
proof (intro conjI impI)
  assume s: "\<exists>f \<in> set (analyzeContract store sourceCode). rule f = ''analysis-complete''"
  have "analyzeContract store sourceCode \<noteq> [inputValidationFinding]"
    using s by (auto simp: inputValidationFinding_def)
  moreover have "analyzeContract store sourceCode \<noteq> [internalErrorFinding]"
    using s by (auto simp: internalErrorFinding_def)
  ultimately show r: "analyzeContract store sourceCode = [analysisCompleteFinding]"
    using s analyzeContract_cases [of store sourceCode] by blast
  show "\<forall>g \<in> set (analyzeContract store sourceCode). severity g = Info"
    by (simp add: r analysisCompleteFinding_def)
next
  assume "sourceCode \<noteq> []"
  then have "analyzeContract Completes sourceCode =
      finalize (analyzeContractSimple (preprocessSolidityCode sourceCode))"
    by (rule analyzeContract_completes)
  then show "analyzeContract Completes sourceCode =
          (if analyzeContractSimple (preprocessSolidityCode sourceCode) = []
              \<or> (\<forall>r \<in> set (analyzeContractSimple (preprocessSolidityCode sourceCode)).
                    severity r = Info)
           then [analysisCompleteFinding]
           else analyzeContractSimple (preprocessSolidityCode sourceCode))"
    by (simp add: finalize_def list_all_iff)
qed

theorem sentinel_alone_witness:
  "analyzeContractSimple (preprocessSolidityCode (lit ''contract C {'')) = []
   \<and> analyzeContract Completes (lit ''contract C {'') = [analysisCompleteFinding]
   \<and> list_all (\<lambda>g. severity g = Info) (analyzeContract Completes (lit ''contract C {''))"
proof -
  have a: "analyzeContractSimple (preprocessSolidityCode (lit ''contract C {'')) = []"
    by code_simp
  have b: "lit ''contract C {'' \<noteq> []"
    by (simp add: lit_def)
  note t = sentinel_alone [of Completes "lit ''contract C {''"]
  from t have "lit ''contract C {'' \<noteq> [] \<longrightarrow>
        analyzeContract Completes (lit ''contract C {'') =
          (if analyzeContractSimple (preprocessSolidityCode (lit ''contract C {'')) = []
              \<or> (\<forall>r \<in> set (analyzeContractSimple (preprocessSolidityCode (lit ''contract C {''))).
                    severity r = Info)
           then [analysisCompleteFinding]
           else analyzeContractSimple (preprocessSolidityCode (lit ''contract C {'')))"
    by (rule conjunct2)
  with b have c: "analyzeContract Completes (lit ''contract C {'') = [analysisCompleteFinding]"
    by (simp only: a simp_thms if_True)
  then have d: "\<exists>f \<in> set (analyzeContract Completes (lit ''contract C {'')). rule f = ''analysis-complete''"
    by (simp add: analysisCompleteFinding_def)
  from t have "(\<exists>f \<in> set (analyzeContract Completes (lit ''contract C {'')). rule f = ''analysis-complete'')
      \<longrightarrow> analyzeContract Completes (lit ''contract C {'') = [analysisCompleteFinding]
          \<and> (\<forall>g \<in> set (analyzeContract Completes (lit ''contract C {'')). severity g = Info)"
    by (rule conjunct1)
  with d have "\<forall>g \<in> set (analyzeContract Completes (lit ''contract C {'')). severity g = Info"
    by blast
  then have "list_all (\<lambda>g. severity g = Info) (analyzeContract Completes (lit ''contract C {''))"
    by (simp only: list_all_iff)
  with a c show ?thesis by blast
qed


section \<open>Sources without a contract declaration\<close>

lemma findIndexFrom_none:
  "0 \<le> i \<Longrightarrow> findIndexFrom (\<lambda>x j. Q x) i xs = -1 \<longleftrightarrow> (\<forall>x \<in> set xs. \<not> Q x)"
proof (induction xs arbitrary: i)
  case Nil
  show ?case by simp
next
  case (Cons x xs)
  from Cons.prems have "0 \<le> i + 1" by simp
  then have "findIndexFrom (\<lambda>x j. Q x) (i + 1) xs = -1 \<longleftrightarrow> (\<forall>x \<in> set xs. \<not> Q x)"
    by (rule Cons.IH)
  with Cons.prems show ?case by auto
qed

lemma findContractLine_none:
  "findContractLine lines = -1 \<longleftrightarrow> (\<forall>ln \<in> set lines. \<not> startsWith ln (lit ''contract''))"
  unfolding findContractLine_def findIndex_def by (rule findIndexFrom_none) simp

lemma analyzeContractSimple_no_contract:
  "findContractLine (trimmedLines source) = -1 \<Longrightarrow> analyzeContractSimple source = [syntaxFinding]"
  by (subst analyzeContractSimple_unfold) (rule if_P)

lemma finalize_syntax: "finalize [syntaxFinding] = [syntaxFinding]"
  by (simp add: finalize_def syntaxFinding_def)

text \<open>
  C8, as the code has it.  When no trimmed line of a text starts with \<open>contract\<close>, the
  contract analysis of that text is the single finding of severity error and rule
  \<open>syntax\<close> at line 1, column 1, and nothing else.  For a non-empty source whose
  preprocessed text has no such line, and whose results are stored without an
  exception, \<open>analyzeContract\<close> returns exactly this finding.  The index of the contract
  line is \<open>-1\<close> exactly when no line starts with \<open>contract\<close>.
\<close>

theorem no_contract_declaration:
  "(findContractLine (trimmedLines source) = -1 \<longrightarrow>
      analyzeContractSimple source =
        [\<lparr>severity = Error, message = ''No contract declaration found'',
          line = 1, column = 1, rule = ''syntax'',
          description = ''The code must contain a contract declaration.'',
          recommendation = (''Add a contract declaration using 'contract ContractName {'' @ [CHR 0x27])\<rparr>])
   \<and> (sourceCode \<noteq> []
        \<and> (\<forall>ln \<in> set (trimmedLines (preprocessSolidityCode sourceCode)).
              \<not> startsWith ln (lit ''contract''))
      \<longrightarrow> analyzeContract Completes sourceCode =
        [\<lparr>severity = Error, message = ''No contract declaration found'',
          line = 1, column = 1, rule = ''syntax'',
          description = ''The code must contain a contract declaration.'',
          recommendation = (''Add a contract declaration using 'contract ContractName {'' @ [CHR 0x27])\<rparr>])
   \<and> (findContractLine lines = -1 \<longleftrightarrow> (\<forall>ln \<in> set lines. \<not> startsWith ln (lit ''contract'')))"
proof (intro conjI impI)
  assume "findContractLine (trimmedLines source) = -1"
  then have "analyzeContractSimple source = [syntaxFinding]"
    by (rule analyzeContractSimple_no_contract)
  then show "analyzeContractSimple source =
        [\<lparr>severity = Error, message = ''No contract declaration found'',
          line = 1, column = 1, rule = ''syntax'',
          description = ''The code must contain a contract declaration.'',
          recommendation = (''Add a contract declaration using 'contract ContractName {'' @ [CHR 0x27])\<rparr>]"
    by (simp add: syntaxFinding_def)
next
  assume a: "sourceCode \<noteq> []
        \<and> (\<forall>ln \<in> set (trimmedLines (preprocessSolidityCode sourceCode)).
              \<not> startsWith ln (lit ''contract''))"
  then have "findContractLine (trimmedLines (preprocessSolidityCode sourceCode)) = -1"
    by (simp add: findContractLine_none)
  then have "analyzeContractSimple (preprocessSolidityCode sourceCode) = [syntaxFinding]"
    by (rule analyzeContractSimple_no_contract)
  with a have "analyzeContract Completes sourceCode = [syntaxFinding]"
    by (simp add: analyzeContract_completes finalize_syntax)
  then show "analyzeContract Completes sourceCode =
        [\<lparr>severity = Error, message = ''No contract declaration found'',
          line = 1, column = 1, rule = ''syntax'',
          description = ''The code must contain a contract declaration.'',
          recommendation = (''Add a contract declaration using 'contract ContractName {'' @ [CHR 0x27])\<rparr>]"
    by (simp add: syntaxFinding_def)
next
  show "findContractLine lines = -1 \<longleftrightarrow> (\<forall>ln \<in> set lines. \<not> startsWith ln (lit ''contract''))"
    by (rule findContractLine_none)
qed

theorem no_contract_declaration_witness:
  "trimmedLines (preprocessSolidityCode (lit ''uint public value;'')) = [lit ''uint public value;'']
   \<and> findContractLine [lit ''uint public value;''] = -1
   \<and> analyzeContract Completes (lit ''uint public value;'') =
        [\<lparr>severity = Error, message = ''No contract declaration found'',
          line = 1, column = 1, rule = ''syntax'',
          description = ''The code must contain a contract declaration.'',
          recommendation = (''Add a contract declaration using 'contract ContractName {'' @ [CHR 0x27])\<rparr>]"
proof -
  have a: "trimmedLines (preprocessSolidityCode (lit ''uint public value;'')) = [lit ''uint public value;'']"
    by code_simp
  have b: "\<not> startsWith (lit ''uint public value;'') (lit ''contract'')"
    by code_simp
  have c: "lit ''uint public value;'' \<noteq> []"
    by (simp add: lit_def)
  from a b c have h: "lit ''uint public value;'' \<noteq> []
      \<and> (\<forall>ln \<in> set (trimmedLines (preprocessSolidityCode (lit ''uint public value;''))).
            \<not> startsWith ln (lit ''contract''))"
    by simp
  note t = no_contract_declaration [of "lit ''uint public value;''" "lit ''uint public value;''"
      "[lit ''uint public value;'']"]
  from b have "\<forall>ln \<in> set [lit ''uint public value;'']. \<not> startsWith ln (lit ''contract'')"
    by simp
  with t have "findContractLine [lit ''uint public value;''] = -1"
    by blast
  moreover from t h have "analyzeContract Completes (lit ''uint public value;'') =
        [\<lparr>severity = Error, message = ''No contract declaration found'',
          line = 1, column = 1, rule = ''syntax'',
          description = ''The code must contain a contract declaration.'',
          recommendation = (''Add a contract declaration using 'contract ContractName {'' @ [CHR 0x27])\<rparr>]"
    by blast
  ultimately show ?thesis using a by blast
qed

text \<open>
  The empty source has no line that starts with \<open>contract\<close>, and its result is the
  \<open>input-validation\<close> finding, not the \<open>syntax\<close> finding.
\<close>

theorem no_contract_declaration_counterexample:
  "trimmedLines (preprocessSolidityCode []) = [ [] ]
   \<and> \<not> startsWith [] (lit ''contract'')
   \<and> findContractLine (trimmedLines (preprocessSolidityCode [])) = -1
   \<and> analyzeContract Completes [] =
        [\<lparr>severity = Error, message = ''Invalid source code provided'',
          line = 1, column = 1, rule = ''input-validation'',
          description = ''The provided source code is empty or invalid.'',
          recommendation = ''Please provide valid Solidity source code.''\<rparr>]"
  by code_simp


section \<open>Sources of white space only\<close>

lemma replaceCRLF_space: "\<forall>c \<in> set s. isWhiteSpace c \<Longrightarrow> \<forall>c \<in> set (replaceCRLF s). isWhiteSpace c"
  by (induction s rule: replaceCRLF.induct) auto

lemma replaceCR_space: "\<forall>c \<in> set s. isWhiteSpace c \<Longrightarrow> \<forall>c \<in> set (replaceCR s). isWhiteSpace c"
  by (auto simp: replaceCR_def isWhiteSpace_def)

lemma replaceTAB_space: "\<forall>c \<in> set s. isWhiteSpace c \<Longrightarrow> \<forall>c \<in> set (replaceTAB s). isWhiteSpace c"
  by (auto simp: replaceTAB_def isWhiteSpace_def split: if_splits)

lemma trim_space: "\<forall>c \<in> set s. isWhiteSpace c \<Longrightarrow> trim s = []"
proof -
  assume "\<forall>c \<in> set s. isWhiteSpace c"
  then have "dropWhile isWhiteSpace s = []" by simp
  then show ?thesis
    unfolding trim_def by (simp only: rev.simps dropWhile.simps)
qed

lemma preprocess_space: "\<forall>c \<in> set s. isWhiteSpace c \<Longrightarrow> preprocessSolidityCode s = []"
  unfolding preprocessSolidityCode_def
  by (intro trim_space replaceTAB_space replaceCR_space replaceCRLF_space)

lemma trimmedLines_empty: "trimmedLines [] = [ [] ]"
  by (simp add: trimmedLines_def trim_def)

lemma analyzeContractSimple_empty: "analyzeContractSimple [] = [syntaxFinding]"
proof -
  have "\<not> startsWith [] (lit ''contract'')"
    by (simp add: lit_def)
  then have "findContractLine (trimmedLines []) = -1"
    by (simp add: findContractLine_none trimmedLines_empty)
  then show ?thesis
    by (rule analyzeContractSimple_no_contract)
qed

text \<open>
  C10.  A source that is not empty and consists of white space only does not take the
  input-validation branch: preprocessing turns it into the empty text, which has no
  contract line, and the result, when it is stored without an exception, is exactly the
  one finding of severity error and rule \<open>syntax\<close>.
\<close>

theorem whitespace_only_source:
  "sourceCode \<noteq> [] \<and> (\<forall>c \<in> set sourceCode. isWhiteSpace c) \<longrightarrow>
     preprocessSolidityCode sourceCode = []
     \<and> analyzeContract Completes sourceCode = [syntaxFinding]
     \<and> severity syntaxFinding = Error \<and> rule syntaxFinding = ''syntax''
     \<and> analyzeContract Completes sourceCode \<noteq> [inputValidationFinding]"
proof
  assume a: "sourceCode \<noteq> [] \<and> (\<forall>c \<in> set sourceCode. isWhiteSpace c)"
  then have p: "preprocessSolidityCode sourceCode = []"
    by (simp add: preprocess_space)
  from a have "analyzeContract Completes sourceCode =
      finalize (analyzeContractSimple (preprocessSolidityCode sourceCode))"
    by (simp add: analyzeContract_completes)
  then have r: "analyzeContract Completes sourceCode = [syntaxFinding]"
    by (simp add: p analyzeContractSimple_empty finalize_syntax)
  have "syntaxFinding \<noteq> inputValidationFinding"
    by (simp add: syntaxFinding_def inputValidationFinding_def)
  with p r show "preprocessSolidityCode sourceCode = []
     \<and> analyzeContract Completes sourceCode = [syntaxFinding]
     \<and> severity syntaxFinding = Error \<and> rule syntaxFinding = ''syntax''
     \<and> analyzeContract Completes sourceCode \<noteq> [inputValidationFinding]"
    by (simp add: syntaxFinding_def)
qed

theorem whitespace_only_source_witness:
  "[SP, TAB, CR, NL, SP] \<noteq> [] \<and> list_all isWhiteSpace [SP, TAB, CR, NL, SP]
   \<and> preprocessSolidityCode [SP, TAB, CR, NL, SP] = []
   \<and> analyzeContract Completes [SP, TAB, CR, NL, SP] = [syntaxFinding]"
proof -
  have a: "[SP, TAB, CR, NL, SP] \<noteq> [] \<and> (\<forall>c \<in> set [SP, TAB, CR, NL, SP]. isWhiteSpace c)"
    by (simp add: isWhiteSpace_def)
  then have "list_all isWhiteSpace [SP, TAB, CR, NL, SP]"
    unfolding list_all_iff by blast
  with a whitespace_only_source [of "[SP, TAB, CR, NL, SP]"] show ?thesis
    by blast
qed


section \<open>The state variables of a contract without functions\<close>

text \<open>
  C5 at a contract without a function line.  With the closing brace on a line of its
  own, the line \<open>uint public value;\<close> yields the one \<open>state-visibility\<close> finding, at
  line 2.  With the declaration on the last line of the source, there is no function
  line, so the index of the first function line is \<open>-1\<close>, and \<open>slice\<close> takes \<open>-1\<close> as
  "up to the last line, exclusive": the public declaration is not looked at, the contract
  analysis finds nothing, and \<open>analyzeContract\<close> answers "No issues found".
\<close>

theorem public_on_last_line_missed:
  "analyzeContractSimple (joinLines [lit ''contract C {'', lit ''uint public value;'', lit ''}''])
     = [stateVisibilityFinding 2]
   \<and> trimmedLines publicOnLastLine = [lit ''contract C {'', lit ''uint public value; }'']
   \<and> findContractLine (trimmedLines publicOnLastLine) = 0
   \<and> findFirstFunctionLine 0 (trimmedLines publicOnLastLine) = -1
   \<and> js_slice (trimmedLines publicOnLastLine) 1 (-1) = []
   \<and> js_includes (lit ''uint public value; }'') (lit ''public'')
   \<and> \<not> js_includes (lit ''uint public value; }'') (lit ''constant'')
   \<and> \<not> js_includes (lit ''uint public value; }'') (lit ''immutable'')
   \<and> analyzeContractSimple publicOnLastLine = []
   \<and> analyzeContract Completes publicOnLastLine = [analysisCompleteFinding]"
  by code_simp


end
